theory Spec2Isabelle
  imports Main
begin

section \<open>Text\<close>

text \<open>
  Message texts and callback data are Python strings; the model takes them as strings of
  code points below 256, one \<open>char\<close> per code point. \<open>is_space\<close> is what \<^verbatim>\<open>str.strip()\<close>
  removes in that range: tab to carriage return, the four separators \<open>0x1C\<close> to \<open>0x1F\<close>,
  the space, the next-line control \<open>0x85\<close> and the no-break space \<open>0xA0\<close>.
\<close>

definition is_space :: "char \<Rightarrow> bool" where
  "is_space c \<longleftrightarrow>
     (let n = (of_char c :: nat)
      in (9 \<le> n \<and> n \<le> 13) \<or> (28 \<le> n \<and> n \<le> 32) \<or> n = 133 \<or> n = 160)"

definition strip :: "string \<Rightarrow> string" where
  "strip s = rev (dropWhile is_space (rev (dropWhile is_space s)))"

text \<open>\<^verbatim>\<open>s.partition(" ")[2]\<close>: what follows the first space, empty when there is none.\<close>

definition after_first_space :: "string \<Rightarrow> string" where
  "after_first_space s =
     (case dropWhile (\<lambda>c. c \<noteq> CHR '' '') s of [] \<Rightarrow> [] | _ # rest \<Rightarrow> rest)"

text \<open>\<^verbatim>\<open>s.split(sep, maxsplit)\<close> for a one-character separator.\<close>

fun split_max :: "char \<Rightarrow> nat \<Rightarrow> string \<Rightarrow> string list" where
  "split_max sep 0 s = [s]"
| "split_max sep (Suc n) s =
     (case dropWhile (\<lambda>c. c \<noteq> sep) s of
        [] \<Rightarrow> [s]
      | _ # rest \<Rightarrow> takeWhile (\<lambda>c. c \<noteq> sep) s # split_max sep n rest)"

definition is_digit :: "char \<Rightarrow> bool" where
  "is_digit c \<longleftrightarrow> (let n = (of_char c :: nat) in 48 \<le> n \<and> n \<le> 57)"

definition digit_val :: "char \<Rightarrow> nat" where
  "digit_val c = (of_char c :: nat) - 48"

text \<open>
  \<^verbatim>\<open>int(s)\<close> on a string. What \<^verbatim>\<open>int\<close> drops around the number is less than what
  \<^verbatim>\<open>strip\<close> removes: tab to carriage return and the space, and \<open>0x85\<close> and \<open>0xA0\<close>, which
  it first turns into spaces; the separators \<open>0x1C\<close> to \<open>0x1F\<close> stay and make the string
  invalid. One sign is allowed, the digits may be grouped by single underscores, and a
  number of more than 4300 digits is refused. Every refusal is a \<^verbatim>\<open>ValueError\<close>, which is
  \<open>None\<close> here.
\<close>

definition is_int_space :: "char \<Rightarrow> bool" where
  "is_int_space c \<longleftrightarrow>
     (let n = (of_char c :: nat) in (9 \<le> n \<and> n \<le> 13) \<or> n = 32 \<or> n = 133 \<or> n = 160)"

definition int_strip :: "string \<Rightarrow> string" where
  "int_strip s = rev (dropWhile is_int_space (rev (dropWhile is_int_space s)))"

definition max_str_digits :: nat where
  "max_str_digits = 4300"

fun parse_digits_acc :: "nat \<Rightarrow> string \<Rightarrow> nat option" where
  "parse_digits_acc acc [] = Some acc"
| "parse_digits_acc acc (c # cs) =
     (if is_digit c then parse_digits_acc (10 * acc + digit_val c) cs
      else if c = CHR ''_'' \<and> (case cs of [] \<Rightarrow> False | d # _ \<Rightarrow> is_digit d)
        then parse_digits_acc acc cs
      else None)"

definition parse_digits :: "string \<Rightarrow> nat option" where
  "parse_digits s =
     (case s of
        [] \<Rightarrow> None
      | c # _ \<Rightarrow>
          if is_digit c \<and> length (filter is_digit s) \<le> max_str_digits
          then parse_digits_acc 0 s else None)"

definition parse_int :: "string \<Rightarrow> int option" where
  "parse_int s =
     (case int_strip s of
        [] \<Rightarrow> None
      | c # rest \<Rightarrow>
          if c = CHR ''-'' then map_option (\<lambda>n. - int n) (parse_digits rest)
          else if c = CHR ''+'' then map_option int (parse_digits rest)
          else map_option int (parse_digits (c # rest)))"

text \<open>\<^verbatim>\<open>str(n)\<close> of an integer, as an f-string interpolates it.\<close>

definition digit_char :: "nat \<Rightarrow> char" where
  "digit_char d = char_of (48 + d)"

fun show_nat :: "nat \<Rightarrow> string" where
  "show_nat n = (if n < 10 then [digit_char n] else show_nat (n div 10) @ [digit_char (n mod 10)])"

declare show_nat.simps [simp del]

definition show_int :: "int \<Rightarrow> string" where
  "show_int i = (if i < 0 then CHR ''-'' # show_nat (nat (- i)) else show_nat (nat i))"

section \<open>Record store\<close>

text \<open>
  The bot keeps its data in seven tables (\<^verbatim>\<open>utils/supabase_client.py\<close>, \<^verbatim>\<open>models.py\<close>).
  A table is the list of its rows in storage order; a query without an order clause returns
  the matching rows in that order. Row identifiers and Telegram identifiers are Python
  integers (\<open>int\<close>); a timestamp is the number of microseconds since the epoch, so that the
  comparisons the store makes on \<^verbatim>\<open>timestamptz\<close> columns are comparisons of integers.
  Fields that several tables share by name carry a one-letter prefix here.

  A call to the store, or a \<^verbatim>\<open>bot.send_message\<close> to another user, that the source wraps
  in \<^verbatim>\<open>try/except\<close> takes a flag saying whether the call raises; the \<^verbatim>\<open>except\<close> branch
  is the branch of the model under that flag. A call outside any \<^verbatim>\<open>try\<close> block ends the
  handler when it raises; the model describes the runs in which those calls return, and
  in which the replies to the acting user (\<^verbatim>\<open>message.answer\<close>, \<^verbatim>\<open>call.answer\<close>) go through.
\<close>

record user_row =
  u_id :: int
  tg_id :: int
  username :: "string option"
  first_name :: "string option"
  last_name :: "string option"
  is_blocked :: bool

record profile_row =
  p_id :: int
  user_id :: int
  name :: string
  gender :: "string option"
  age :: int
  city :: "string option"
  photos :: "string list"
  bio :: "string option"
  p_is_active :: bool
  boosted_until :: "int option"
  p_created_at :: int

record like_row =
  l_id :: int
  from_user_id :: int
  to_user_id :: int
  message :: "string option"
  video_url :: "string option"

record match_row =
  m_id :: int
  user1_id :: int
  user2_id :: int
  m_is_active :: bool

record chat_row =
  c_id :: int
  match_id :: int
  c_is_active :: bool
  c_created_at :: int
  c_updated_at :: int

record complaint_row =
  k_id :: int
  k_from_user_id :: "int option"
  against_user_id :: "int option"
  reason :: "string option"
  resolved :: bool

record viewed_row =
  v_id :: int
  v_user_id :: int
  profile_id :: int
  viewed_at :: int

record store =
  users :: "user_row list"
  profiles :: "profile_row list"
  likes :: "like_row list"
  matches :: "match_row list"
  chats :: "chat_row list"
  complaints :: "complaint_row list"
  viewed_profiles :: "viewed_row list"

text \<open>A \<^verbatim>\<open>bigserial\<close> key: the next identifier is above every identifier in the table.\<close>

definition next_id :: "int list \<Rightarrow> int" where
  "next_id ids = foldr max ids 0 + 1"

text \<open>\<^verbatim>\<open>rows[0] if rows else None\<close>\<close>

fun first_row :: "'a list \<Rightarrow> 'a option" where
  "first_row [] = None"
| "first_row (x # xs) = Some x"

text \<open>Python truthiness of an \<^verbatim>\<open>Optional[int]\<close>: \<^verbatim>\<open>None\<close> and \<open>0\<close> are false.\<close>

fun truthy :: "int option \<Rightarrow> bool" where
  "truthy None = False"
| "truthy (Some n) = (n \<noteq> 0)"

definition get_user_by_tg_id :: "store \<Rightarrow> int \<Rightarrow> user_row option" where
  "get_user_by_tg_id s tg = first_row (take 1 (filter (\<lambda>u. tg_id u = tg) (users s)))"

section \<open>Outgoing messages\<close>

text \<open>
  The texts the handlers send are fixed sentences; each is a constructor here, named after
  what the sentence says, with the values the source interpolates as arguments. The few
  Russian words the source itself interpolates (the name of a user without a profile, the
  bracketed word for a video, the words for a contact that is not available) are given in
  English.
\<close>

datatype notice =
    NoActiveMatches
  | AllMatchesHaveChats
  | ChatCreateFailed
  | ChatStartedWith string
  | PeerStartedChat string
  | NoActiveChat
  | ChatEnded
  | PeerEndedChat
  | NoActiveChatToBlock
  | UserBlockedChatEnded
  | BlockFailed
  | ReportUsage
  | ReportSent
  | ReportFailed
  | NoActiveChatForContacts
  | PeerUnreachable
  | ContactRequestSent
  | ContactRequestPrompt string string
  | BadCallbackData
  | MatchNotFound
  | ContactsApproved string
  | ContactExchangeDone
  | ContactExchangeError
  | PeerDeclinedContacts
  | YouDeclinedContacts
  | Declined
  | GenericError
  | UserError
  | Skipped
  | NoMoreProfiles
  | LikeSent
  | LikedBy string "string option"
  | MutualMatch
  | AskLikeText
  | AskLikeVideo
  | EmptyAck
  | EmptyLikeText
  | LikeWithMessageSent
  | NoProfilesFound
  | IdentifyFailed
  | ProfileSaveFailed
  | LikeTargetError
  | VideoUnavailable
  | VideoUploadFailed
  | LikeWithVideoSent

text \<open>
  \<open>Answer\<close> is \<^verbatim>\<open>message.answer\<close> (a reply in the sender's chat), \<open>SendMessage\<close> is
  \<^verbatim>\<open>bot.send_message\<close> to a Telegram identifier, \<open>CallAnswer\<close> is \<^verbatim>\<open>call.answer\<close>,
  \<open>EditText\<close> is \<^verbatim>\<open>call.message.edit_text\<close>. \<open>ShowCard pid uid photo\<close> is the profile card
  of profile \<open>pid\<close> with its four buttons for user \<open>uid\<close>, sent with the first photo when
  \<open>photo\<close> holds and as plain text otherwise.
\<close>

datatype event =
    Answer notice
  | SendMessage int notice
  | CallAnswer notice
  | EditText notice
  | ShowCard int int bool

section \<open>Anonymous relay (handlers/chat.py)\<close>

definition db_user_from_message :: "store \<Rightarrow> int option \<Rightarrow> user_row option" where
  "db_user_from_message s from_user =
     (case from_user of None \<Rightarrow> None | Some tg \<Rightarrow> get_user_by_tg_id s tg)"

definition other_user_id :: "match_row \<Rightarrow> int \<Rightarrow> int option" where
  "other_user_id m my_user_id =
     (if user1_id m = my_user_id then Some (user2_id m)
      else if user2_id m = my_user_id then Some (user1_id m)
      else None)"

text \<open>\<^verbatim>\<open>_other_user_id(match, uid) or 0\<close>\<close>

definition other_or_zero :: "match_row \<Rightarrow> int \<Rightarrow> int" where
  "other_or_zero m my_user_id =
     (case other_user_id m my_user_id of None \<Rightarrow> 0 | Some x \<Rightarrow> x)"

definition get_matches_for_user :: "store \<Rightarrow> int \<Rightarrow> bool \<Rightarrow> nat \<Rightarrow> match_row list" where
  "get_matches_for_user s uid active_only limit =
     take limit
       (filter (\<lambda>m. (active_only \<longrightarrow> m_is_active m) \<and> (user1_id m = uid \<or> user2_id m = uid))
          (matches s))"

definition get_active_chats_for_matches :: "store \<Rightarrow> int list \<Rightarrow> chat_row list" where
  "get_active_chats_for_matches s match_ids =
     (if match_ids = [] then []
      else filter (\<lambda>c. c_is_active c \<and> match_id c \<in> set match_ids) (chats s))"

definition get_match_by_id :: "store \<Rightarrow> int \<Rightarrow> match_row option" where
  "get_match_by_id s mid = first_row (take 1 (filter (\<lambda>m. m_id m = mid) (matches s)))"

text \<open>
  The chats are sorted by \<^verbatim>\<open>updated_at\<close>, latest first; Python's sort is stable also with
  \<^verbatim>\<open>reverse=True\<close>, which is a stable ascending sort on the negated key.
\<close>

definition get_active_chat_for_user :: "store \<Rightarrow> int \<Rightarrow> (chat_row \<times> match_row) option" where
  "get_active_chat_for_user s uid =
     (let ms = get_matches_for_user s uid True 100;
          mids = map m_id ms;
          cs = get_active_chats_for_matches s mids
      in case sort_key (\<lambda>c. - c_updated_at c) cs of
           [] \<Rightarrow> None
         | chat # _ \<Rightarrow>
             (case find (\<lambda>m. m_id m = match_id chat) ms of
                None \<Rightarrow> None
              | Some m \<Rightarrow> Some (chat, m)))"

definition has_active_chat_for_match :: "store \<Rightarrow> int \<Rightarrow> bool" where
  "has_active_chat_for_match s mid =
     (take 1 (filter (\<lambda>c. match_id c = mid \<and> c_is_active c) (chats s)) \<noteq> [])"

definition deactivate_all_user_chats :: "store \<Rightarrow> bool \<Rightarrow> int \<Rightarrow> store" where
  "deactivate_all_user_chats s update_raises uid =
     (let ms = get_matches_for_user s uid True 200;
          mids = map m_id ms
      in if mids = [] then s
         else if update_raises then s
         else s\<lparr>chats :=
                  map (\<lambda>c. if match_id c \<in> set mids \<and> c_is_active c
                            then c\<lparr>c_is_active := False\<rparr> else c)
                    (chats s)\<rparr>)"

definition create_chat :: "store \<Rightarrow> bool \<Rightarrow> int \<Rightarrow> int \<Rightarrow> store \<times> chat_row option" where
  "create_chat s insert_raises now mid =
     (if insert_raises then (s, None)
      else
        let row = \<lparr>c_id = next_id (map c_id (chats s)), match_id = mid, c_is_active = True,
                   c_created_at = now, c_updated_at = now\<rparr>
        in (s\<lparr>chats := chats s @ [row]\<rparr>, Some row))"

definition tg_id_of :: "store \<Rightarrow> int \<Rightarrow> int option" where
  "tg_id_of s users_id =
     map_option tg_id (first_row (take 1 (filter (\<lambda>u. u_id u = users_id) (users s))))"

text \<open>The name shown when a user has no profile row, or when the lookup raises.\<close>

definition default_name :: string where
  "default_name = ''User''"

definition profile_name :: "store \<Rightarrow> bool \<Rightarrow> int \<Rightarrow> string" where
  "profile_name s select_raises uid =
     (if select_raises then default_name
      else case first_row (take 1 (filter (\<lambda>p. user_id p = uid) (profiles s))) of
             None \<Rightarrow> default_name
           | Some p \<Rightarrow> name p)"

record start_chat_faults =
  deactivate_raises :: bool
  create_raises :: bool
  name_me_raises :: bool
  name_ot_raises :: bool

definition cmd_start_chat ::
  "store \<Rightarrow> start_chat_faults \<Rightarrow> int \<Rightarrow> int option \<Rightarrow> store \<times> event list" where
  "cmd_start_chat s flt now from_user =
     (case db_user_from_message s from_user of
        None \<Rightarrow> (s, [])
      | Some dbu \<Rightarrow>
          (let ms = get_matches_for_user s (u_id dbu) True 50 in
           if ms = [] then (s, [Answer NoActiveMatches])
           else
             (case find (\<lambda>m. \<not> has_active_chat_for_match s (m_id m)) ms of
                None \<Rightarrow> (s, [Answer AllMatchesHaveChats])
              | Some candidate \<Rightarrow>
                  (let s1 = deactivate_all_user_chats s (deactivate_raises flt) (u_id dbu) in
                   case create_chat s1 (create_raises flt) now (m_id candidate) of
                     (s2, None) \<Rightarrow> (s2, [Answer ChatCreateFailed])
                   | (s2, Some ch) \<Rightarrow>
                       (let other = other_or_zero candidate (u_id dbu);
                            my_tg = from_user;
                            other_tg = tg_id_of s2 other;
                            name_me = profile_name s2 (name_me_raises flt) (u_id dbu);
                            name_ot = profile_name s2 (name_ot_raises flt) other
                        in (s2,
                            (if truthy my_tg
                             then [SendMessage (the my_tg) (ChatStartedWith name_ot)] else []) @
                            (if truthy other_tg
                             then [SendMessage (the other_tg) (PeerStartedChat name_me)]
                             else [])))))))"

definition deactivate_chat :: "store \<Rightarrow> int \<Rightarrow> store" where
  "deactivate_chat s cid =
     s\<lparr>chats := map (\<lambda>c. if c_id c = cid then c\<lparr>c_is_active := False\<rparr> else c) (chats s)\<rparr>"

definition cmd_end_chat :: "store \<Rightarrow> bool \<Rightarrow> int option \<Rightarrow> store \<times> event list" where
  "cmd_end_chat s update_raises from_user =
     (case db_user_from_message s from_user of
        None \<Rightarrow> (s, [])
      | Some dbu \<Rightarrow>
          (case get_active_chat_for_user s (u_id dbu) of
             None \<Rightarrow> (s, [Answer NoActiveChat])
           | Some (chat, m) \<Rightarrow>
               (let s1 = (if update_raises then s else deactivate_chat s (c_id chat));
                    my_tg = from_user;
                    other = other_or_zero m (u_id dbu);
                    other_tg = tg_id_of s1 other
                in (s1,
                    (if truthy my_tg then [SendMessage (the my_tg) ChatEnded] else []) @
                    (if truthy other_tg then [SendMessage (the other_tg) PeerEndedChat]
                     else [])))))"

definition block_user :: "store \<Rightarrow> int \<Rightarrow> store" where
  "block_user s uid =
     s\<lparr>users := map (\<lambda>u. if u_id u = uid then u\<lparr>is_blocked := True\<rparr> else u) (users s)\<rparr>"

text \<open>
  The two updates of \<^verbatim>\<open>cmd_block_user\<close> share one \<^verbatim>\<open>try\<close> block: when the first raises
  nothing is written, when the second raises the counterpart stays blocked.
\<close>

definition cmd_block_user :: "store \<Rightarrow> bool \<Rightarrow> bool \<Rightarrow> int option \<Rightarrow> store \<times> event list" where
  "cmd_block_user s block_raises update_raises from_user =
     (case db_user_from_message s from_user of
        None \<Rightarrow> (s, [])
      | Some dbu \<Rightarrow>
          (case get_active_chat_for_user s (u_id dbu) of
             None \<Rightarrow> (s, [Answer NoActiveChatToBlock])
           | Some (chat, m) \<Rightarrow>
               (let other = other_or_zero m (u_id dbu) in
                if block_raises then (s, [Answer BlockFailed])
                else
                  (let s1 = block_user s other in
                   if update_raises then (s1, [Answer BlockFailed])
                   else (deactivate_chat s1 (c_id chat), [Answer UserBlockedChatEnded])))))"

definition cmd_report :: "store \<Rightarrow> bool \<Rightarrow> int option \<Rightarrow> string option \<Rightarrow> store \<times> event list" where
  "cmd_report s insert_fails from_user msg_text =
     (case db_user_from_message s from_user of
        None \<Rightarrow> (s, [])
      | Some dbu \<Rightarrow>
          (let rsn = strip (after_first_space (case msg_text of None \<Rightarrow> [] | Some t \<Rightarrow> t)) in
           if rsn = [] then (s, [Answer ReportUsage])
           else
             (let target_id = (case get_active_chat_for_user s (u_id dbu) of
                                 None \<Rightarrow> None
                               | Some (chat, m) \<Rightarrow> other_user_id m (u_id dbu))
              in if insert_fails then (s, [Answer ReportFailed])
                 else
                   (s\<lparr>complaints := complaints s @
                        [\<lparr>k_id = next_id (map k_id (complaints s)),
                          k_from_user_id = Some (u_id dbu), against_user_id = target_id,
                          reason = Some rsn, resolved = False\<rparr>]\<rparr>,
                    [Answer ReportSent]))))"

text \<open>\<^verbatim>\<open>_cb\<close> and \<^verbatim>\<open>_parse_cb\<close>: the callback data of the two buttons of the prompt.\<close>

definition cb :: "string \<Rightarrow> int \<Rightarrow> string" where
  "cb action mid = ''chat:'' @ action @ '':'' @ show_int mid"

definition parse_cb :: "string \<Rightarrow> (string \<times> int) option" where
  "parse_cb data =
     (case split_max (CHR '':'') 3 data of
        [prefix, action, mid] \<Rightarrow>
          if prefix \<noteq> ''chat'' then None
          else (case parse_int mid of None \<Rightarrow> None | Some i \<Rightarrow> Some (action, i))
      | _ \<Rightarrow> None)"

definition cmd_share_contact :: "store \<Rightarrow> bool \<Rightarrow> int option \<Rightarrow> event list" where
  "cmd_share_contact s send_raises from_user =
     (case db_user_from_message s from_user of
        None \<Rightarrow> []
      | Some dbu \<Rightarrow>
          (case get_active_chat_for_user s (u_id dbu) of
             None \<Rightarrow> [Answer NoActiveChatForContacts]
           | Some (chat, m) \<Rightarrow>
               (let mid = m_id m;
                    other = other_or_zero m (u_id dbu);
                    other_tg = tg_id_of s other
                in if \<not> truthy other_tg then [Answer PeerUnreachable]
                   else
                     Answer ContactRequestSent #
                     (if send_raises then []
                      else [SendMessage (the other_tg)
                              (ContactRequestPrompt (cb ''approve'' mid) (cb ''reject'' mid))]))))"

text \<open>
  The sends of one \<^verbatim>\<open>try\<close> block of \<^verbatim>\<open>cb_share_contact\<close>, in order: the first send that raises
  ends the block with the answer of the \<^verbatim>\<open>except\<close> branch; \<open>down tg\<close> says that a send to
  \<open>tg\<close> raises.
\<close>

fun try_sends :: "(int \<Rightarrow> bool) \<Rightarrow> (int \<times> notice) list \<Rightarrow> notice \<Rightarrow> notice \<Rightarrow> event list" where
  "try_sends down [] ok err = [CallAnswer ok]"
| "try_sends down ((tg, n) # rest) ok err =
     (if down tg then [CallAnswer err] else SendMessage tg n # try_sends down rest ok err)"

definition mention :: "int option \<Rightarrow> string" where
  "mention tg = (if \<not> truthy tg then ''contact unavailable'' else ''tg://user?id='' @ show_int (the tg))"

definition cb_share_contact :: "store \<Rightarrow> (int \<Rightarrow> bool) \<Rightarrow> string \<Rightarrow> event list" where
  "cb_share_contact s down data =
     (case parse_cb data of
        None \<Rightarrow> [CallAnswer BadCallbackData]
      | Some (action, mid) \<Rightarrow>
          (case get_match_by_id s mid of
             None \<Rightarrow> [CallAnswer MatchNotFound]
           | Some m \<Rightarrow>
               (let user_a = user1_id m;
                    user_b = user2_id m;
                    tg_a = tg_id_of s user_a;
                    tg_b = tg_id_of s user_b
                in if action = ''approve'' then
                     try_sends down
                       (if truthy tg_a \<and> truthy tg_b
                        then [(the tg_a, ContactsApproved (mention tg_b)),
                              (the tg_b, ContactsApproved (mention tg_a))]
                        else [])
                       ContactExchangeDone ContactExchangeError
                   else if action = ''reject'' then
                     try_sends down
                       ((if truthy tg_a then [(the tg_a, PeerDeclinedContacts)] else []) @
                        (if truthy tg_b then [(the tg_b, YouDeclinedContacts)] else []))
                       Declined GenericError
                   else [])))"

text \<open>
  The active chats of a user: the active rows of \<^verbatim>\<open>Chats\<close> whose match is an active
  match of the user, over the whole tables.
\<close>

definition user_matches :: "store \<Rightarrow> int \<Rightarrow> match_row list" where
  "user_matches s uid =
     filter (\<lambda>m. m_is_active m \<and> (user1_id m = uid \<or> user2_id m = uid)) (matches s)"

definition user_active_chats :: "store \<Rightarrow> int \<Rightarrow> chat_row list" where
  "user_active_chats s uid =
     filter (\<lambda>c. c_is_active c \<and> match_id c \<in> set (map m_id (user_matches s uid))) (chats s)"

section \<open>Feed selector (handlers/feed.py)\<close>

text \<open>Python truthiness of an \<^verbatim>\<open>Optional[str]\<close>: \<^verbatim>\<open>None\<close> and the empty string are false.\<close>

fun truthy_str :: "string option \<Rightarrow> bool" where
  "truthy_str None = False"
| "truthy_str (Some t) = (t \<noteq> [])"

text \<open>\<^verbatim>\<open>timedelta(days=1)\<close> and \<^verbatim>\<open>timedelta(hours=1)\<close> in microseconds.\<close>

definition day_us :: int where
  "day_us = 86400000000"

definition hour_us :: int where
  "hour_us = 3600000000"

definition get_recently_viewed_ids :: "store \<Rightarrow> int \<Rightarrow> int \<Rightarrow> int \<Rightarrow> int list" where
  "get_recently_viewed_ids s uid now days =
     (let since = now - days * day_us
      in map profile_id
           (filter (\<lambda>r. v_user_id r = uid \<and> since \<le> viewed_at r) (viewed_profiles s)))"

definition opposite_gender :: "string option \<Rightarrow> string option" where
  "opposite_gender g =
     (if g = Some ''male'' then Some ''female''
      else if g = Some ''female'' then Some ''male''
      else None)"

text \<open>
  The filters every feed query carries. A comparison with a null column is not true in the
  store, so a profile without gender or city fails an equality filter on that column.
\<close>

definition apply_common_filters ::
  "int \<Rightarrow> string option \<Rightarrow> string option \<Rightarrow> int list \<Rightarrow> profile_row list \<Rightarrow> profile_row list" where
  "apply_common_filters uid gender_filter city_filter viewed_ids q =
     (let q1 = filter (\<lambda>p. p_is_active p \<and> user_id p \<noteq> uid) q;
          q2 = (if truthy_str gender_filter then filter (\<lambda>p. gender p = gender_filter) q1 else q1);
          q3 = (if truthy_str city_filter then filter (\<lambda>p. city p = city_filter) q2 else q2);
          q4 = (if viewed_ids \<noteq> [] then filter (\<lambda>p. p_id p \<notin> set viewed_ids) q3 else q3)
      in q4)"

definition boost_live :: "int \<Rightarrow> profile_row \<Rightarrow> bool" where
  "boost_live now p = (case boosted_until p of None \<Rightarrow> False | Some b \<Rightarrow> now \<le> b)"

definition boost_key :: "profile_row \<Rightarrow> int" where
  "boost_key p = (case boosted_until p of None \<Rightarrow> 0 | Some b \<Rightarrow> - b)"

text \<open>
  \<open>now_viewed\<close> is the clock reading inside \<^verbatim>\<open>_get_recently_viewed_ids\<close>, \<open>now_boost\<close> the
  later one behind \<^verbatim>\<open>now_iso\<close>. A descending order is a stable ascending sort on the negated
  column: rows with equal keys stay in storage order.
\<close>

definition fetch_next_profile :: "store \<Rightarrow> int \<Rightarrow> int \<Rightarrow> int \<Rightarrow> profile_row option" where
  "fetch_next_profile s uid now_viewed now_boost =
     (let my_profile = first_row (take 1 (filter (\<lambda>p. user_id p = uid) (profiles s)));
          gender_filter = (case my_profile of None \<Rightarrow> None
                           | Some mp \<Rightarrow> opposite_gender (gender mp));
          city_filter = (case my_profile of None \<Rightarrow> None
                         | Some mp \<Rightarrow> if truthy_str (city mp) then city mp else None);
          viewed_ids = get_recently_viewed_ids s uid now_viewed 2;
          common = apply_common_filters uid gender_filter city_filter viewed_ids (profiles s);
          boosted = take 20 (sort_key boost_key (filter (boost_live now_boost) common))
      in case boosted of
           p # _ \<Rightarrow> Some p
         | [] \<Rightarrow>
             (let others = take 50 (sort_key (\<lambda>p. - p_created_at p) common)
              in first_row others))"

definition mark_profile_viewed :: "store \<Rightarrow> bool \<Rightarrow> int \<Rightarrow> int \<Rightarrow> int \<Rightarrow> store" where
  "mark_profile_viewed s insert_raises now uid pid =
     (if insert_raises then s
      else s\<lparr>viewed_profiles := viewed_profiles s @
               [\<lparr>v_id = next_id (map v_id (viewed_profiles s)), v_user_id = uid,
                 profile_id = pid, viewed_at = now\<rparr>]\<rparr>)"

text \<open>
  \<^verbatim>\<open>_show_profile\<close>: the card goes out with the first photo, or as text when there is no
  photo or the photo cannot be sent; then the view is recorded.
\<close>

definition show_profile ::
  "store \<Rightarrow> bool \<Rightarrow> bool \<Rightarrow> int \<Rightarrow> int \<Rightarrow> profile_row \<Rightarrow> store \<times> event list" where
  "show_profile s photo_raises viewed_raises now uid profile =
     (mark_profile_viewed s viewed_raises now uid (p_id profile),
      [ShowCard (p_id profile) (user_id profile) (photos profile \<noteq> [] \<and> \<not> photo_raises)])"

record show_env =
  now_viewed :: int
  now_boost :: int
  now_mark :: int
  photo_raises :: bool
  viewed_raises :: bool

definition cmd_feed :: "store \<Rightarrow> show_env \<Rightarrow> int option \<Rightarrow> store \<times> event list" where
  "cmd_feed s env from_user =
     (case db_user_from_message s from_user of
        None \<Rightarrow> (s, [Answer IdentifyFailed])
      | Some db_user \<Rightarrow>
          (case fetch_next_profile s (u_id db_user) (now_viewed env) (now_boost env) of
             None \<Rightarrow> (s, [Answer NoProfilesFound])
           | Some profile \<Rightarrow>
               show_profile s (photo_raises env) (viewed_raises env) (now_mark env)
                 (u_id db_user) profile))"

section \<open>Interest and match engine (handlers/feed.py)\<close>

text \<open>
  The upsert on the key \<^verbatim>\<open>(from_user_id, to_user_id)\<close>: a row with that key takes the new
  payload columns, otherwise a row is appended.
\<close>

definition insert_like ::
  "store \<Rightarrow> bool \<Rightarrow> int \<Rightarrow> int \<Rightarrow> string option \<Rightarrow> string option \<Rightarrow> store" where
  "insert_like s upsert_raises from_uid to_uid message_text vurl =
     (if upsert_raises then s
      else if \<exists>l \<in> set (likes s). from_user_id l = from_uid \<and> to_user_id l = to_uid
        then s\<lparr>likes :=
                 map (\<lambda>l. if from_user_id l = from_uid \<and> to_user_id l = to_uid
                           then l\<lparr>message := message_text, video_url := vurl\<rparr> else l)
                   (likes s)\<rparr>
      else s\<lparr>likes := likes s @
               [\<lparr>l_id = next_id (map l_id (likes s)), from_user_id = from_uid,
                 to_user_id = to_uid, message = message_text, video_url = vurl\<rparr>]\<rparr>)"

definition check_reciprocal_like :: "store \<Rightarrow> bool \<Rightarrow> int \<Rightarrow> int \<Rightarrow> bool" where
  "check_reciprocal_like s select_raises a_user_id b_user_id =
     (if select_raises then False
      else take 1 (filter (\<lambda>l. from_user_id l = b_user_id \<and> to_user_id l = a_user_id) (likes s))
             \<noteq> [])"

definition get_match_between :: "store \<Rightarrow> bool \<Rightarrow> int \<Rightarrow> int \<Rightarrow> match_row option" where
  "get_match_between s select_raises a_user_id b_user_id =
     (if select_raises then None
      else first_row (take 1 (filter
             (\<lambda>m. (user1_id m = a_user_id \<and> user2_id m = b_user_id) \<or>
                   (user1_id m = b_user_id \<and> user2_id m = a_user_id))
             (matches s))))"

record match_faults =
  lookup_raises :: bool
  relookup_raises :: bool
  insert_raises :: bool
  fallback_raises :: bool

text \<open>
  \<^verbatim>\<open>_create_match\<close> looks the pair up twice when the first lookup finds a row (once in the
  condition, once for the value returned), inserts otherwise, and looks it up once more
  when the insert raises.
\<close>

definition create_match :: "store \<Rightarrow> match_faults \<Rightarrow> int \<Rightarrow> int \<Rightarrow> store \<times> match_row option" where
  "create_match s flt a_user_id b_user_id =
     (if a_user_id = b_user_id then (s, None)
      else
        (let user1 = min a_user_id b_user_id;
             user2 = max a_user_id b_user_id
         in if get_match_between s (lookup_raises flt) user1 user2 \<noteq> None
            then (s, get_match_between s (relookup_raises flt) user1 user2)
            else if insert_raises flt
            then (s, get_match_between s (fallback_raises flt) user1 user2)
            else
              (let row = \<lparr>m_id = next_id (map m_id (matches s)), user1_id = user1,
                          user2_id = user2, m_is_active = True\<rparr>
               in (s\<lparr>matches := matches s @ [row]\<rparr>, Some row))))"

definition notify_like ::
  "bool \<Rightarrow> int \<Rightarrow> profile_row \<Rightarrow> string option \<Rightarrow> event list" where
  "notify_like send_raises to_tg_id from_profile like_text =
     (let nm = (if name from_profile \<noteq> [] then name from_profile else default_name)
      in if send_raises then []
         else [SendMessage to_tg_id
                 (LikedBy nm (if truthy_str like_text then like_text else None))])"

definition notify_match :: "bool \<Rightarrow> bool \<Rightarrow> int \<Rightarrow> int \<Rightarrow> event list" where
  "notify_match send_a_raises send_b_raises user_a_tg user_b_tg =
     (if send_a_raises then [] else [SendMessage user_a_tg MutualMatch]) @
     (if send_b_raises then [] else [SendMessage user_b_tg MutualMatch])"

definition resolve_tg_id :: "store \<Rightarrow> bool \<Rightarrow> int \<Rightarrow> int option" where
  "resolve_tg_id s select_raises users_id =
     (if select_raises then None else tg_id_of s users_id)"

definition parse_feed_cb :: "string \<Rightarrow> (string \<times> int \<times> int) option" where
  "parse_feed_cb data =
     (case split_max (CHR '':'') 3 data of
        [prefix, action, pid, uid] \<Rightarrow>
          if prefix \<noteq> ''feed'' then None
          else (case parse_int pid of
                  None \<Rightarrow> None
                | Some p \<Rightarrow> (case parse_int uid of None \<Rightarrow> None | Some u \<Rightarrow> Some (action, p, u)))
      | _ \<Rightarrow> None)"

record like_faults =
  upsert_raises :: bool
  resolve_raises :: bool
  notify_like_raises :: bool
  reciprocal_raises :: bool
  match_flt :: match_faults
  notify_me_raises :: bool
  notify_other_raises :: bool

text \<open>
  What the three like handlers share after their own checks: the upsert, the like
  notification, the reciprocal check and the match with its two notifications.
  \<open>my_tg\<close> is the Telegram identifier of the sender of the event.
\<close>

definition like_steps ::
  "store \<Rightarrow> like_faults \<Rightarrow> user_row \<Rightarrow> int option \<Rightarrow> int \<Rightarrow> string option \<Rightarrow> string option \<Rightarrow>
   string option \<Rightarrow> store \<times> event list" where
  "like_steps s flt db_user my_tg to_uid message_text vurl like_text =
     (let s1 = insert_like s (upsert_raises flt) (u_id db_user) to_uid message_text vurl;
          target_tg = resolve_tg_id s1 (resolve_raises flt) to_uid;
          my_profile = first_row (take 1 (filter (\<lambda>p. user_id p = u_id db_user) (profiles s1)));
          ev1 = (case my_profile of
                   None \<Rightarrow> []
                 | Some mp \<Rightarrow>
                     if truthy target_tg
                     then notify_like (notify_like_raises flt) (the target_tg) mp like_text
                     else [])
      in if check_reciprocal_like s1 (reciprocal_raises flt) (u_id db_user) to_uid
         then
           (case create_match s1 (match_flt flt) (u_id db_user) to_uid of
              (s2, None) \<Rightarrow> (s2, ev1)
            | (s2, Some m) \<Rightarrow>
                (s2, ev1 @
                   (if truthy target_tg \<and> truthy my_tg
                    then notify_match (notify_me_raises flt) (notify_other_raises flt)
                           (the my_tg) (the target_tg)
                    else [])))
         else (s1, ev1))"

datatype fsm = NoState | WaitingText | WaitingVideo

record session =
  fsm_state :: fsm
  target_user_id :: "int option"

definition show_next :: "store \<Rightarrow> show_env \<Rightarrow> user_row \<Rightarrow> store \<times> event list" where
  "show_next s env db_user =
     (case fetch_next_profile s (u_id db_user) (now_viewed env) (now_boost env) of
        None \<Rightarrow> (s, [EditText NoMoreProfiles])
      | Some next_profile \<Rightarrow>
          show_profile s (photo_raises env) (viewed_raises env) (now_mark env)
            (u_id db_user) next_profile)"

text \<open>
  \<^verbatim>\<open>feed_actions\<close>. \<open>message_from\<close> is the sender of the message that carries the buttons
  (\<^verbatim>\<open>call.message.from_user\<close>, by which the handler looks the user up), \<open>call_from\<close> the user
  who pressed (\<^verbatim>\<open>call.from_user\<close>), \<open>has_message\<close> says that \<^verbatim>\<open>call.message\<close> is present.
\<close>

definition feed_actions ::
  "store \<Rightarrow> session \<Rightarrow> like_faults \<Rightarrow> show_env \<Rightarrow> bool \<Rightarrow> int option \<Rightarrow> int option \<Rightarrow> string \<Rightarrow>
   store \<times> session \<times> event list" where
  "feed_actions s st flt env has_message message_from call_from data =
     (if \<not> has_message then (s, st, [])
      else
        (case db_user_from_message s message_from of
           None \<Rightarrow> (s, st, [CallAnswer UserError])
         | Some db_user \<Rightarrow>
             (case parse_feed_cb data of
                None \<Rightarrow> (s, st, [CallAnswer BadCallbackData])
              | Some (action, pid, to_uid) \<Rightarrow>
                  if action = ''skip'' then
                    (let (s1, ev) = show_next s env db_user
                     in (s1, st, CallAnswer Skipped # ev))
                  else if action = ''like'' then
                    (let (s1, ev1) = like_steps s flt db_user call_from to_uid None None None;
                         (s2, ev2) = show_next s1 env db_user
                     in (s2, st, ev1 @ [CallAnswer LikeSent] @ ev2))
                  else if action = ''like_msg'' then
                    (s, \<lparr>fsm_state = WaitingText, target_user_id = Some to_uid\<rparr>,
                     [Answer AskLikeText, CallAnswer EmptyAck])
                  else if action = ''like_vid'' then
                    (s, \<lparr>fsm_state = WaitingVideo, target_user_id = Some to_uid\<rparr>,
                     [Answer AskLikeVideo, CallAnswer EmptyAck])
                  else (s, st, []))))"

text \<open>
  \<^verbatim>\<open>like_with_message\<close>, the handler of the state \<open>WaitingText\<close>; \<open>msg_text\<close> is
  \<^verbatim>\<open>message.text\<close>.
\<close>

definition like_with_message ::
  "store \<Rightarrow> session \<Rightarrow> like_faults \<Rightarrow> int option \<Rightarrow> string option \<Rightarrow>
   store \<times> session \<times> event list" where
  "like_with_message s st flt from_user msg_text =
     (case db_user_from_message s from_user of
        None \<Rightarrow> (s, st, [Answer UserError])
      | Some db_user \<Rightarrow>
          (let target = target_user_id st;
               txt = strip (case msg_text of None \<Rightarrow> [] | Some t \<Rightarrow> t)
           in if \<not> truthy target \<or> txt = [] then (s, st, [Answer EmptyLikeText])
              else
                (let (s1, ev1) = like_steps s flt db_user from_user (the target)
                                   (Some txt) None (Some txt)
                 in (s1, \<lparr>fsm_state = NoState, target_user_id = None\<rparr>,
                     ev1 @ [Answer LikeWithMessageSent]))))"

text \<open>
  \<^verbatim>\<open>like_with_video\<close>, the handler of the state \<open>WaitingVideo\<close> for a message with a video.
  \<open>content\<close> is what the download gave (\<open>None\<close> when it raised), \<open>upload\<close> what the media
  store answered. The like text of the notification is the bracketed word for video.
\<close>

datatype upload_result = UploadRaises | Uploaded "string option"

definition like_with_video ::
  "store \<Rightarrow> session \<Rightarrow> like_faults \<Rightarrow> int option \<Rightarrow> string option \<Rightarrow> upload_result \<Rightarrow>
   store \<times> session \<times> event list" where
  "like_with_video s st flt from_user content upload =
     (case db_user_from_message s from_user of
        None \<Rightarrow> (s, st, [Answer UserError])
      | Some db_user \<Rightarrow>
          (let target = target_user_id st
           in if \<not> truthy target then (s, st, [Answer LikeTargetError])
              else if \<not> truthy_str content then (s, st, [Answer VideoUnavailable])
              else
                (case upload of
                   UploadRaises \<Rightarrow> (s, st, [Answer VideoUploadFailed])
                 | Uploaded vurl \<Rightarrow>
                     (let (s1, ev1) = like_steps s flt db_user from_user (the target)
                                        None vurl (Some ''[video]'')
                      in (s1, \<lparr>fsm_state = NoState, target_user_id = None\<rparr>,
                          ev1 @ [Answer LikeWithVideoSent])))))"

text \<open>A match row relates the unordered pair \<open>{a, b}\<close>.\<close>

definition relates :: "int \<Rightarrow> int \<Rightarrow> match_row \<Rightarrow> bool" where
  "relates a b m \<longleftrightarrow>
     (user1_id m = a \<and> user2_id m = b) \<or> (user1_id m = b \<and> user2_id m = a)"

text \<open>A like is directed: the rows of the ordered pair \<open>(a, b)\<close>.\<close>

definition like_rows :: "store \<Rightarrow> int \<Rightarrow> int \<Rightarrow> like_row list" where
  "like_rows s a b = filter (\<lambda>l. from_user_id l = a \<and> to_user_id l = b) (likes s)"

text \<open>The store accepts every call of a like: no flag of the store is set.\<close>

definition store_accepts :: "like_faults \<Rightarrow> bool" where
  "store_accepts flt \<longleftrightarrow>
     \<not> upsert_raises flt \<and> \<not> reciprocal_raises flt \<and> \<not> lookup_raises (match_flt flt) \<and>
     \<not> relookup_raises (match_flt flt) \<and> \<not> insert_raises (match_flt flt)"

text \<open>
  The profiles that pass the common filters of a viewer: the list both queries of
  \<^verbatim>\<open>_fetch_next_profile\<close> start from.
\<close>

definition common_pool :: "store \<Rightarrow> int \<Rightarrow> int \<Rightarrow> profile_row list" where
  "common_pool s uid t_viewed =
     (let my_profile = first_row (take 1 (filter (\<lambda>p. user_id p = uid) (profiles s)));
          gender_filter = (case my_profile of None \<Rightarrow> None
                           | Some mp \<Rightarrow> opposite_gender (gender mp));
          city_filter = (case my_profile of None \<Rightarrow> None
                         | Some mp \<Rightarrow> if truthy_str (city mp) then city mp else None)
      in apply_common_filters uid gender_filter city_filter
           (get_recently_viewed_ids s uid t_viewed 2) (profiles s))"

text \<open>The views of a profile by a viewer that are at most \<open>days\<close> days old.\<close>

definition recently_viewed :: "store \<Rightarrow> int \<Rightarrow> int \<Rightarrow> int \<Rightarrow> int \<Rightarrow> bool" where
  "recently_viewed s uid now days pid \<longleftrightarrow>
     (\<exists>r \<in> set (viewed_profiles s).
        v_user_id r = uid \<and> profile_id r = pid \<and> now - days * day_us \<le> viewed_at r)"

section \<open>Profile persistence (handlers/registration.py, utils/supabase_client.py)\<close>

text \<open>The Telegram user behind a message (\<^verbatim>\<open>message.from_user\<close>).\<close>

record tg_user =
  t_id :: int
  t_username :: "string option"
  t_first_name :: "string option"
  t_last_name :: "string option"

text \<open>The upsert on the key \<^verbatim>\<open>tg_id\<close>.\<close>

definition upsert_user_basic ::
  "store \<Rightarrow> int \<Rightarrow> string option \<Rightarrow> string option \<Rightarrow> string option \<Rightarrow> store" where
  "upsert_user_basic s tg un fn ln =
     (if \<exists>u \<in> set (users s). tg_id u = tg
      then s\<lparr>users :=
               map (\<lambda>u. if tg_id u = tg
                         then u\<lparr>username := un, first_name := fn, last_name := ln\<rparr> else u)
                 (users s)\<rparr>
      else s\<lparr>users := users s @
               [\<lparr>u_id = next_id (map u_id (users s)), tg_id = tg, username = un,
                 first_name = fn, last_name = ln, is_blocked = False\<rparr>]\<rparr>)"

text \<open>
  The values the dialogue has staged when the Bio step completes: every earlier step has
  stored its field.
\<close>

record reg_data =
  d_name :: string
  d_gender :: string
  d_age :: int
  d_city :: string
  d_photos :: "string list"
  d_bio :: string

definition apply_payload :: "int \<Rightarrow> reg_data \<Rightarrow> profile_row \<Rightarrow> profile_row" where
  "apply_payload uid d p =
     p\<lparr>user_id := uid, name := d_name d, gender := Some (d_gender d), age := d_age d,
       city := Some (d_city d), photos := d_photos d, bio := Some (d_bio d),
       p_is_active := True\<rparr>"

text \<open>
  \<^verbatim>\<open>_create_or_update_profile\<close>. \<open>now\<close> is the handler's clock, from which the boost
  window is computed, \<open>db_now\<close> the store's clock, which fills \<^verbatim>\<open>created_at\<close> of a new row.
  The update and the insert share one \<^verbatim>\<open>try\<close> block.
\<close>

definition create_or_update_profile ::
  "store \<Rightarrow> bool \<Rightarrow> int \<Rightarrow> int \<Rightarrow> tg_user option \<Rightarrow> reg_data \<Rightarrow> store \<times> event list" where
  "create_or_update_profile s persist_raises now db_now usr d =
     (case usr of
        None \<Rightarrow> (s, [])
      | Some u \<Rightarrow>
          (let s1 = upsert_user_basic s (t_id u) (t_username u) (t_first_name u) (t_last_name u)
           in case get_user_by_tg_id s1 (t_id u) of
                None \<Rightarrow> (s1, [Answer IdentifyFailed])
              | Some db_user \<Rightarrow>
                  (let existing =
                         first_row (take 1 (filter (\<lambda>p. user_id p = u_id db_user) (profiles s1)))
                   in if persist_raises then (s1, [Answer ProfileSaveFailed])
                      else
                        (case existing of
                           Some e \<Rightarrow>
                             (s1\<lparr>profiles :=
                                   map (\<lambda>p. if p_id p = p_id e
                                             then apply_payload (u_id db_user) d p else p)
                                     (profiles s1)\<rparr>, [])
                         | None \<Rightarrow>
                             (s1\<lparr>profiles := profiles s1 @
                                   [\<lparr>p_id = next_id (map p_id (profiles s1)),
                                     user_id = u_id db_user, name = d_name d,
                                     gender = Some (d_gender d), age = d_age d,
                                     city = Some (d_city d), photos = d_photos d,
                                     bio = Some (d_bio d), p_is_active = True,
                                     boosted_until = Some (now + 24 * hour_us),
                                     p_created_at = db_now\<rparr>]\<rparr>, [])))))"

text \<open>Registration runs of one user, one after the other, each with its own data and clocks.\<close>

fun registration_runs :: "store \<Rightarrow> tg_user \<Rightarrow> (int \<times> int \<times> reg_data) list \<Rightarrow> store" where
  "registration_runs s u [] = s"
| "registration_runs s u ((now, db_now, d) # rest) =
     registration_runs (fst (create_or_update_profile s False now db_now (Some u) d)) u rest"

text \<open>The profile rows of a user.\<close>

definition user_profiles :: "store \<Rightarrow> int \<Rightarrow> profile_row list" where
  "user_profiles s uid = filter (\<lambda>p. user_id p = uid) (profiles s)"

text \<open>The row a first registration appends.\<close>

definition new_profile :: "store \<Rightarrow> int \<Rightarrow> int \<Rightarrow> int \<Rightarrow> reg_data \<Rightarrow> profile_row" where
  "new_profile s uid now db_now d =
     \<lparr>p_id = next_id (map p_id (profiles s)), user_id = uid, name = d_name d,
      gender = Some (d_gender d), age = d_age d, city = Some (d_city d),
      photos = d_photos d, bio = Some (d_bio d), p_is_active = True,
      boosted_until = Some (now + 24 * hour_us), p_created_at = db_now\<rparr>"

text \<open>
  What every registration run keeps: the user has a row in \<^verbatim>\<open>Users\<close> with the identifier
  \<open>uid\<close>, profile identifiers are a key, and the user has at most one profile.
\<close>

definition reg_inv :: "store \<Rightarrow> int \<Rightarrow> int \<Rightarrow> bool" where
  "reg_inv s tg uid \<longleftrightarrow>
     (case get_user_by_tg_id s tg of None \<Rightarrow> False | Some x \<Rightarrow> u_id x = uid) \<and>
     distinct (map p_id (profiles s)) \<and> length (user_profiles s uid) \<le> 1"

section \<open>Concrete stores\<close>

definition mk_user :: "int \<Rightarrow> int \<Rightarrow> user_row" where
  "mk_user i tg =
     \<lparr>u_id = i, tg_id = tg, username = None, first_name = None, last_name = None,
      is_blocked = False\<rparr>"

definition no_start_faults :: start_chat_faults where
  "no_start_faults =
     \<lparr>deactivate_raises = False, create_raises = False, name_me_raises = False,
      name_ot_raises = False\<rparr>"

text \<open>Three users; user 2 is matched with user 1 and with user 3; nobody chats.\<close>

definition triangle_store :: store where
  "triangle_store =
     \<lparr>users = [mk_user 1 101, mk_user 2 102, mk_user 3 103],
      profiles = [], likes = [],
      matches = [\<lparr>m_id = 1, user1_id = 1, user2_id = 2, m_is_active = True\<rparr>,
                 \<lparr>m_id = 2, user1_id = 2, user2_id = 3, m_is_active = True\<rparr>],
      chats = [], complaints = [], viewed_profiles = []\<rparr>"

definition mk_profile ::
  "int \<Rightarrow> int \<Rightarrow> string \<Rightarrow> string \<Rightarrow> string \<Rightarrow> int option \<Rightarrow> int \<Rightarrow> profile_row" where
  "mk_profile i uid nm g c b t =
     \<lparr>p_id = i, user_id = uid, name = nm, gender = Some g, age = 25, city = Some c,
      photos = [], bio = None, p_is_active = True, boosted_until = b, p_created_at = t\<rparr>"

text \<open>Two users with a profile each, and nothing between them yet.\<close>

definition pair_store :: store where
  "pair_store =
     \<lparr>users = [mk_user 1 101, mk_user 2 102],
      profiles = [mk_profile 1 1 ''Ann'' ''female'' ''Paris'' None 10,
                  mk_profile 2 2 ''Bob'' ''male'' ''Paris'' None 20],
      likes = [], matches = [], chats = [], complaints = [], viewed_profiles = []\<rparr>"

text \<open>
  The same two users after user 2 has liked user 1, while user 1 looks at the card of
  user 2 (the view is on record).
\<close>

definition liked_store :: store where
  "liked_store =
     pair_store
       \<lparr>likes := [\<lparr>l_id = 1, from_user_id = 2, to_user_id = 1, message = Some ''hi'',
                   video_url = None\<rparr>],
        viewed_profiles := [\<lparr>v_id = 1, v_user_id = 1, profile_id = 2, viewed_at = 900\<rparr>]\<rparr>"

definition no_match_faults :: match_faults where
  "no_match_faults =
     \<lparr>lookup_raises = False, relookup_raises = False, insert_raises = False,
      fallback_raises = False\<rparr>"

definition no_like_faults :: like_faults where
  "no_like_faults =
     \<lparr>upsert_raises = False, resolve_raises = False, notify_like_raises = False,
      reciprocal_raises = False, match_flt = no_match_faults, notify_me_raises = False,
      notify_other_raises = False\<rparr>"

definition idle :: session where
  "idle = \<lparr>fsm_state = NoState, target_user_id = None\<rparr>"

definition calm :: show_env where
  "calm = \<lparr>now_viewed = 1000, now_boost = 1000, now_mark = 1000, photo_raises = False,
           viewed_raises = False\<rparr>"

text \<open>
  A viewer (user 1, male, Paris) and two female Paris profiles, one of them boosted for
  another hour at the time \<open>noon\<close>.
\<close>

definition noon :: int where
  "noon = 200000000000"

definition paris_store :: store where
  "paris_store =
     \<lparr>users = [mk_user 1 101, mk_user 2 102, mk_user 3 103],
      profiles = [mk_profile 1 1 ''Max'' ''male'' ''Paris'' None 10,
                  mk_profile 2 2 ''Zoe'' ''female'' ''Paris'' None 20,
                  mk_profile 3 3 ''Lea'' ''female'' ''Paris'' (Some 203600000000) 30],
      likes = [], matches = [], chats = [], complaints = [], viewed_profiles = []\<rparr>"

definition ann :: tg_user where
  "ann = \<lparr>t_id = 101, t_username = Some ''ann'', t_first_name = Some ''Ann'',
          t_last_name = None\<rparr>"

definition ann_data :: reg_data where
  "ann_data = \<lparr>d_name = ''Anna'', d_gender = ''female'', d_age = 30, d_city = ''Lyon'',
               d_photos = [''https://img/1.jpg''], d_bio = ''hello''\<rparr>"

definition at_noon :: show_env where
  "at_noon = \<lparr>now_viewed = noon, now_boost = noon, now_mark = noon, photo_raises = False,
              viewed_raises = False\<rparr>"

text \<open>Two matched users in an active chat.\<close>

definition chat_store :: store where
  "chat_store =
     \<lparr>users = [mk_user 1 101, mk_user 2 102],
      profiles = [], likes = [],
      matches = [\<lparr>m_id = 1, user1_id = 1, user2_id = 2, m_is_active = True\<rparr>],
      chats = [\<lparr>c_id = 1, match_id = 1, c_is_active = True, c_created_at = 1000,
                 c_updated_at = 1000\<rparr>],
      complaints = [], viewed_profiles = []\<rparr>"

definition all_up :: "int \<Rightarrow> bool" where
  "all_up tg = False"

text \<open>
  User 1 with 101 active matches, with the users 2 to 102, and one active chat, on the
  last of them.
\<close>

definition crowded_store :: store where
  "crowded_store =
     \<lparr>users = map (\<lambda>i. mk_user i (100 + i)) [1..102],
      profiles = [], likes = [],
      matches = map (\<lambda>i. \<lparr>m_id = i, user1_id = 1, user2_id = i + 1, m_is_active = True\<rparr>)
                  [1..101],
      chats = [\<lparr>c_id = 1, match_id = 101, c_is_active = True, c_created_at = 1000,
                 c_updated_at = 1000\<rparr>],
      complaints = [], viewed_profiles = []\<rparr>"

text \<open>
  Four users in a row of matches 1-2, 2-3 and 3-4; user 2 chats with user 1 and user 3
  with user 4.
\<close>

definition busy_store :: store where
  "busy_store =
     \<lparr>users = [mk_user 1 101, mk_user 2 102, mk_user 3 103, mk_user 4 104],
      profiles = [], likes = [],
      matches = [\<lparr>m_id = 1, user1_id = 1, user2_id = 2, m_is_active = True\<rparr>,
                 \<lparr>m_id = 2, user1_id = 2, user2_id = 3, m_is_active = True\<rparr>,
                 \<lparr>m_id = 3, user1_id = 3, user2_id = 4, m_is_active = True\<rparr>],
      chats = [\<lparr>c_id = 1, match_id = 1, c_is_active = True, c_created_at = 1000,
                 c_updated_at = 1000\<rparr>,
               \<lparr>c_id = 2, match_id = 3, c_is_active = True, c_created_at = 1500,
                 c_updated_at = 1500\<rparr>],
      complaints = [], viewed_profiles = []\<rparr>"

section \<open>Facts about rows and lists\<close>

lemma first_row_take1 [simp]: "first_row (take (Suc 0) xs) = first_row xs"
  by (cases xs) simp_all

lemma first_row_None [simp]: "first_row xs = None \<longleftrightarrow> xs = []"
  by (cases xs) simp_all

lemma take1_Nil [simp]: "take (Suc 0) xs = [] \<longleftrightarrow> xs = []"
  by (cases xs) simp_all

lemma filter_map_stable:
  assumes "\<And>x. P (f x) = P x"
  shows "filter P (map f xs) = map f (filter P xs)"
  using assms by (induction xs) auto

lemma length_filter_comp_le:
  assumes "\<And>x. x \<in> set xs \<Longrightarrow> P (f x) \<Longrightarrow> Q x"
  shows "length (filter (P \<circ> f) xs) \<le> length (filter Q xs)"
  using assms by (induction xs) auto

lemma db_user_users:
  "users s' = users s \<Longrightarrow> db_user_from_message s' x = db_user_from_message s x"
  by (simp add: db_user_from_message_def get_user_by_tg_id_def split: option.splits)

lemma first_row_mem: "first_row xs = Some x \<Longrightarrow> x \<in> set xs"
  by (cases xs) auto

lemma sorted_head_least:
  assumes "sort_key f xs = y # ys" and "x \<in> set xs"
  shows "f y \<le> f x"
proof -
  have "sorted (map f (sort_key f xs))" by simp
  then have "\<forall>z \<in> set ys. f y \<le> f z" using assms(1) by simp
  moreover have "x \<in> set (sort_key f xs)" using assms(2) by simp
  ultimately show ?thesis using assms(1) by auto
qed

lemma find_mem: "find P xs = Some x \<Longrightarrow> x \<in> set xs \<and> P x"
  by (induction xs) (auto split: if_splits)

lemma filter_map_fixed:
  assumes "\<And>x. P (f x) = P x" and "\<And>x. P x \<Longrightarrow> f x = x"
  shows "filter P (map f xs) = filter P xs"
  using assms by (induction xs) auto

section \<open>Properties of the relay\<close>

lemma get_matches_all:
  "length (user_matches s uid) \<le> n \<Longrightarrow> get_matches_for_user s uid True n = user_matches s uid"
  by (simp add: get_matches_for_user_def user_matches_def)

lemma get_matches_subset:
  "set (get_matches_for_user s uid True n) \<subseteq> set (user_matches s uid)"
  by (auto simp: get_matches_for_user_def user_matches_def dest: in_set_takeD)

lemma user_matches_deactivate_all [simp]:
  "user_matches (deactivate_all_user_chats s r uid) v = user_matches s v"
  by (simp add: deactivate_all_user_chats_def user_matches_def Let_def)

lemma user_matches_deactivate_chat [simp]:
  "user_matches (deactivate_chat s cid) v = user_matches s v"
  by (simp add: deactivate_chat_def user_matches_def)

lemma user_matches_block_user [simp]:
  "user_matches (block_user s u) v = user_matches s v"
  by (simp add: block_user_def user_matches_def)

lemma deactivate_all_clears:
  assumes "length (user_matches s uid) \<le> 200"
  shows "user_active_chats (deactivate_all_user_chats s False uid) uid = []"
proof -
  have g: "get_matches_for_user s uid True 200 = user_matches s uid"
    using assms by (rule get_matches_all)
  show ?thesis
    unfolding user_active_chats_def user_matches_deactivate_all
    by (auto simp: deactivate_all_user_chats_def g Let_def filter_empty_conv)
qed

lemma deactivate_chat_mono:
  "length (user_active_chats (deactivate_chat s cid) v) \<le> length (user_active_chats s v)"
  unfolding user_active_chats_def user_matches_deactivate_chat
  by (auto simp: deactivate_chat_def intro!: length_filter_comp_le split: if_splits)

lemma user_active_chats_block_user [simp]:
  "user_active_chats (block_user s u) v = user_active_chats s v"
  by (simp add: user_active_chats_def) (simp add: block_user_def)

lemma end_chat_mono:
  "length (user_active_chats (fst (cmd_end_chat s r from_user)) v)
     \<le> length (user_active_chats s v)"
  by (auto simp: cmd_end_chat_def Let_def deactivate_chat_mono split: option.splits prod.splits)

lemma block_user_mono:
  "length (user_active_chats (fst (cmd_block_user s r1 r2 from_user)) v)
     \<le> length (user_active_chats s v)"
  by (auto simp: cmd_block_user_def Let_def split: option.splits prod.splits
      intro: order_trans [OF deactivate_chat_mono])

lemma user_active_chats_create:
  "user_active_chats (fst (create_chat s False now mid)) uid =
     user_active_chats s uid @
       (if mid \<in> set (map m_id (user_matches s uid))
        then [\<lparr>c_id = next_id (map c_id (chats s)), match_id = mid, c_is_active = True,
                c_created_at = now, c_updated_at = now\<rparr>] else [])"
  by (simp add: create_chat_def user_active_chats_def user_matches_def Let_def)

lemma start_chat_store:
  assumes "db_user_from_message s from_user = Some dbu"
    and "find (\<lambda>m. \<not> has_active_chat_for_match s (m_id m))
           (get_matches_for_user s (u_id dbu) True 50) = Some candidate"
  shows "fst (cmd_start_chat s flt now from_user) =
           fst (create_chat (deactivate_all_user_chats s (deactivate_raises flt) (u_id dbu))
                  (create_raises flt) now (m_id candidate))"
proof -
  from assms(2) have "get_matches_for_user s (u_id dbu) True 50 \<noteq> []"
    by (auto simp: find_Some_iff)
  then show ?thesis using assms
    by (simp add: cmd_start_chat_def Let_def split: prod.splits option.splits)
qed

text \<open>
  C1, as the claim states it, on the store \<open>triangle_store\<close>: user 3 starts a chat (with
  user 2, over match 2), then user 1 starts a chat (with user 2, over match 1). Neither
  run touches the chats of the counterpart, and user 2 ends with two active chats.
\<close>

theorem C1_counterpart_two_active_chats:
  "\<not> length (user_active_chats
              (fst (cmd_start_chat
                      (fst (cmd_start_chat triangle_store no_start_faults 1000 (Some 103)))
                      no_start_faults 2000 (Some 101))) 2) \<le> 1"
  by (simp add: cmd_start_chat_def triangle_store_def no_start_faults_def mk_user_def
      db_user_from_message_def get_user_by_tg_id_def get_matches_for_user_def
      has_active_chat_for_match_def deactivate_all_user_chats_def create_chat_def
      other_or_zero_def other_user_id_def tg_id_of_def profile_name_def default_name_def
      user_active_chats_def user_matches_def next_id_def Let_def)

lemma deactivate_all_others:
  "filter (\<lambda>c. match_id c \<notin> set (map m_id (user_matches s uid)))
          (chats (deactivate_all_user_chats s r uid)) =
   filter (\<lambda>c. match_id c \<notin> set (map m_id (user_matches s uid))) (chats s)"
proof -
  let ?mids = "map m_id (get_matches_for_user s uid True 200)"
  let ?f = "\<lambda>c. if match_id c \<in> set ?mids \<and> c_is_active c then c\<lparr>c_is_active := False\<rparr> else c"
  let ?P = "\<lambda>c. match_id c \<notin> set (map m_id (user_matches s uid))"
  have sub: "set ?mids \<subseteq> set (map m_id (user_matches s uid))"
    using get_matches_subset [of s uid 200] by auto
  have "filter ?P (map ?f (chats s)) = filter ?P (chats s)"
  proof (rule filter_map_fixed)
    show "\<And>x. ?P (?f x) = ?P x" by simp
    show "\<And>x. ?P x \<Longrightarrow> ?f x = x" using sub by auto
  qed
  then show ?thesis
    by (simp add: deactivate_all_user_chats_def Let_def)
qed

text \<open>
  C1, amended: the bound is the initiator's. When a user with at most 200 active matches
  starts a chat and the store accepts the deactivating update and the insert, the
  deactivation leaves the user without any active chat and the insert makes the new chat
  the user's only active one, whatever the prior state was. The chats on matches that are
  not the initiator's stay as they were, so the counterpart keeps every other chat.
  \<^verbatim>\<open>cmd_end_chat\<close> and \<^verbatim>\<open>cmd_block_user\<close> never raise the number of active chats of any
  user.
\<close>

theorem C1_start_chat_initiator_single:
  assumes "db_user_from_message s from_user = Some dbu"
    and "find (\<lambda>m. \<not> has_active_chat_for_match s (m_id m))
           (get_matches_for_user s (u_id dbu) True 50) = Some candidate"
    and "length (user_matches s (u_id dbu)) \<le> 200"
    and "\<not> deactivate_raises flt" and "\<not> create_raises flt"
  shows "user_active_chats
           (deactivate_all_user_chats s (deactivate_raises flt) (u_id dbu)) (u_id dbu) = []
       \<and> user_active_chats (fst (cmd_start_chat s flt now from_user)) (u_id dbu) =
           [\<lparr>c_id = next_id (map c_id (chats s)), match_id = m_id candidate, c_is_active = True,
             c_created_at = now, c_updated_at = now\<rparr>]
       \<and> filter (\<lambda>c. match_id c \<notin> set (map m_id (user_matches s (u_id dbu))))
                 (chats (fst (cmd_start_chat s flt now from_user))) =
           filter (\<lambda>c. match_id c \<notin> set (map m_id (user_matches s (u_id dbu)))) (chats s)
       \<and> (\<forall>v r. length (user_active_chats (fst (cmd_end_chat s r from_user)) v)
                  \<le> length (user_active_chats s v))
       \<and> (\<forall>v r1 r2. length (user_active_chats (fst (cmd_block_user s r1 r2 from_user)) v)
                  \<le> length (user_active_chats s v))"
proof -
  let ?s1 = "deactivate_all_user_chats s False (u_id dbu)"
  have c: "user_active_chats ?s1 (u_id dbu) = []"
    using assms(3) by (rule deactivate_all_clears)
  have "candidate \<in> set (get_matches_for_user s (u_id dbu) True 50)"
    using assms(2) by (auto simp: find_Some_iff)
  then have m0: "m_id candidate \<in> set (map m_id (user_matches s (u_id dbu)))"
    using get_matches_subset by fastforce
  then have m: "m_id candidate \<in> set (map m_id (user_matches ?s1 (u_id dbu)))"
    by simp
  have ids: "map c_id (chats ?s1) = map c_id (chats s)"
    by (simp add: deactivate_all_user_chats_def Let_def comp_def if_distrib cong: if_cong)
  have st: "fst (cmd_start_chat s flt now from_user) =
              fst (create_chat ?s1 False now (m_id candidate))"
    using start_chat_store [OF assms(1,2), of flt now] assms(4,5) by simp
  have others: "filter (\<lambda>c. match_id c \<notin> set (map m_id (user_matches s (u_id dbu))))
                 (chats (fst (cmd_start_chat s flt now from_user))) =
           filter (\<lambda>c. match_id c \<notin> set (map m_id (user_matches s (u_id dbu)))) (chats s)"
    using m0 deactivate_all_others [of s "u_id dbu" False]
    by (simp add: st create_chat_def Let_def)
  have single: "user_active_chats (fst (cmd_start_chat s flt now from_user)) (u_id dbu) =
           [\<lparr>c_id = next_id (map c_id (chats s)), match_id = m_id candidate, c_is_active = True,
             c_created_at = now, c_updated_at = now\<rparr>]"
    using c m by (simp add: st user_active_chats_create ids)
  show ?thesis
    using assms(4) c single others end_chat_mono block_user_mono by simp
qed

theorem C1_start_chat_initiator_single_witness:
  "db_user_from_message busy_store (Some 102) = Some (mk_user 2 102)
   \<and> user_active_chats busy_store 2 =
       [\<lparr>c_id = 1, match_id = 1, c_is_active = True, c_created_at = 1000, c_updated_at = 1000\<rparr>]
   \<and> user_active_chats (fst (cmd_start_chat busy_store no_start_faults 2000 (Some 102))) 2 =
       [\<lparr>c_id = 3, match_id = 2, c_is_active = True, c_created_at = 2000, c_updated_at = 2000\<rparr>]
   \<and> filter (\<lambda>c. match_id c \<notin> set (map m_id (user_matches busy_store 2)))
         (chats (fst (cmd_start_chat busy_store no_start_faults 2000 (Some 102)))) =
       [\<lparr>c_id = 2, match_id = 3, c_is_active = True, c_created_at = 1500, c_updated_at = 1500\<rparr>]"
proof -
  let ?m = "\<lparr>m_id = 2, user1_id = 2, user2_id = 3, m_is_active = True\<rparr>"
  have u: "db_user_from_message busy_store (Some 102) = Some (mk_user 2 102)"
    by code_simp
  have uid: "u_id (mk_user 2 102) = 2"
    by (simp add: mk_user_def)
  have f: "find (\<lambda>m. \<not> has_active_chat_for_match busy_store (m_id m))
             (get_matches_for_user busy_store (u_id (mk_user 2 102)) True 50) = Some ?m"
    by code_simp
  have l: "length (user_matches busy_store (u_id (mk_user 2 102))) \<le> 200"
    by code_simp
  have d: "\<not> deactivate_raises no_start_faults" "\<not> create_raises no_start_faults"
    by (simp_all add: no_start_faults_def)
  have before: "user_active_chats busy_store 2 =
       [\<lparr>c_id = 1, match_id = 1, c_is_active = True, c_created_at = 1000, c_updated_at = 1000\<rparr>]"
    by code_simp
  have nid: "next_id (map c_id (chats busy_store)) = 3"
    by code_simp
  have rest: "filter (\<lambda>c. match_id c \<notin> set (map m_id (user_matches busy_store 2)))
                (chats busy_store) =
       [\<lparr>c_id = 2, match_id = 3, c_is_active = True, c_created_at = 1500, c_updated_at = 1500\<rparr>]"
    by code_simp
  note a = C1_start_chat_initiator_single [OF u f l d, of 2000, unfolded uid nid rest]
  show ?thesis
    using a u before by simp
qed

section \<open>Properties of reports and of the contact exchange\<close>

lemma get_active_chat_sound:
  assumes "get_active_chat_for_user s uid = Some (c, m)"
  shows "c \<in> set (user_active_chats s uid)" and "m \<in> set (user_matches s uid)"
    and "match_id c = m_id m" and "other_user_id m uid \<noteq> None"
proof -
  let ?ms = "get_matches_for_user s uid True 100"
  let ?cs = "get_active_chats_for_matches s (map m_id ?ms)"
  from assms obtain rest where srt: "sort_key (\<lambda>c. - c_updated_at c) ?cs = c # rest"
    and fnd: "find (\<lambda>m. m_id m = match_id c) ?ms = Some m"
    by (auto simp: get_active_chat_for_user_def Let_def split: list.splits option.splits)
  have "c \<in> set (sort_key (\<lambda>c. - c_updated_at c) ?cs)" using srt by simp
  then have c: "c \<in> set ?cs" by simp
  have m: "m \<in> set ?ms" "m_id m = match_id c" using find_mem [OF fnd] by simp_all
  then show mm: "m \<in> set (user_matches s uid)" using get_matches_subset by blast
  show "match_id c = m_id m" using m(2) by simp
  from c have "c \<in> set (chats s)" "c_is_active c"
    by (auto simp: get_active_chats_for_matches_def split: if_splits)
  then show "c \<in> set (user_active_chats s uid)"
    using mm m(2) by (force simp: user_active_chats_def)
  show "other_user_id m uid \<noteq> None"
    using mm by (auto simp: user_matches_def other_user_id_def)
qed

lemma get_active_chat_none:
  assumes "user_active_chats s uid = []"
  shows "get_active_chat_for_user s uid = None"
proof -
  let ?ms = "get_matches_for_user s uid True 100"
  have "set (get_active_chats_for_matches s (map m_id ?ms)) \<subseteq> set (user_active_chats s uid)"
    using get_matches_subset [of s uid 100]
    by (auto simp: get_active_chats_for_matches_def user_active_chats_def)
  with assms have "get_active_chats_for_matches s (map m_id ?ms) = []" by simp
  then show ?thesis by (simp add: get_active_chat_for_user_def Let_def)
qed

lemma chats_update_lookups [simp]:
  "tg_id_of (s\<lparr>chats := cs\<rparr>) u = tg_id_of s u"
  "get_match_by_id (s\<lparr>chats := cs\<rparr>) mid = get_match_by_id s mid"
  by (simp_all add: tg_id_of_def get_match_by_id_def)

lemma active_chats_all:
  assumes "length (user_matches s uid) \<le> 100"
  shows "get_active_chats_for_matches s (map m_id (get_matches_for_user s uid True 100)) =
           user_active_chats s uid"
proof -
  have g: "get_matches_for_user s uid True 100 = user_matches s uid"
    using assms by (rule get_matches_all)
  show ?thesis
    by (auto simp: g get_active_chats_for_matches_def user_active_chats_def filter_empty_conv)
qed

lemma get_active_chat_found:
  assumes "length (user_matches s uid) \<le> 100" and "user_active_chats s uid \<noteq> []"
  shows "\<exists>c m. get_active_chat_for_user s uid = Some (c, m)
               \<and> (\<forall>c' \<in> set (user_active_chats s uid). c_updated_at c' \<le> c_updated_at c)"
proof -
  let ?ms = "get_matches_for_user s uid True 100"
  have cs: "get_active_chats_for_matches s (map m_id ?ms) = user_active_chats s uid"
    using assms(1) by (rule active_chats_all)
  have "sort_key (\<lambda>c. - c_updated_at c) (user_active_chats s uid) \<noteq> []"
    using assms(2) by (metis length_0_conv length_sort)
  then obtain c rest where srt: "sort_key (\<lambda>c. - c_updated_at c) (user_active_chats s uid) = c # rest"
    by (cases "sort_key (\<lambda>c. - c_updated_at c) (user_active_chats s uid)") auto
  have "c \<in> set (sort_key (\<lambda>c. - c_updated_at c) (user_active_chats s uid))"
    using srt by simp
  then have "c \<in> set (get_active_chats_for_matches s (map m_id ?ms))"
    by (simp add: cs)
  then have "match_id c \<in> set (map m_id ?ms)"
    by (auto simp: get_active_chats_for_matches_def split: if_splits)
  then have "find (\<lambda>m. m_id m = match_id c) ?ms \<noteq> None"
    by (auto simp: find_None_iff)
  then obtain m where fnd: "find (\<lambda>m. m_id m = match_id c) ?ms = Some m" by auto
  have r: "get_active_chat_for_user s uid = Some (c, m)"
    using srt fnd by (simp add: get_active_chat_for_user_def Let_def cs)
  have "\<forall>c' \<in> set (user_active_chats s uid). c_updated_at c' \<le> c_updated_at c"
    using sorted_head_least [OF srt] by auto
  with r show ?thesis by blast
qed

text \<open>
  C6, as the claim states it, on the store \<open>crowded_store\<close>: user 1 has an active chat,
  over match 101 with user 102, and reports with the reason \<open>spam\<close>.
  \<^verbatim>\<open>_get_active_chat_for_user\<close> reads the first 100 active matches of the user only, does
  not see the chat, and the complaint is stored without a target.
\<close>

theorem C6_report_beyond_hundred_matches:
  "user_active_chats crowded_store 1 =
     [\<lparr>c_id = 1, match_id = 101, c_is_active = True, c_created_at = 1000, c_updated_at = 1000\<rparr>]
   \<and> get_match_by_id crowded_store 101 =
       Some \<lparr>m_id = 101, user1_id = 1, user2_id = 102, m_is_active = True\<rparr>
   \<and> map against_user_id
         (complaints (fst (cmd_report crowded_store False (Some 101) (Some ''/report spam'')))) =
       [None]"
  by code_simp

text \<open>
  C6, amended: the target is found among the first 100 active matches of the sender. For
  a sender with a row in \<^verbatim>\<open>Users\<close>: when nothing but whitespace follows the command word,
  \<^verbatim>\<open>cmd_report\<close> answers with the usage line and returns the store as it was. When a
  reason follows and the store accepts the insert, exactly one complaint row is appended,
  from the sender, with the trimmed reason. If the sender has at most 100 active matches
  and an active chat, the row is against the other user of the match of the sender's
  active chat, the most recently updated one if there are several; if the sender has no
  active chat, the row has no target.
\<close>

theorem C6_report:
  assumes "db_user_from_message s from_user = Some dbu"
  shows "(strip (after_first_space txt) = [] \<longrightarrow>
            cmd_report s f from_user (Some txt) = (s, [Answer ReportUsage]))
       \<and> (strip (after_first_space txt) \<noteq> [] \<longrightarrow> \<not> f \<longrightarrow>
            (\<exists>row. cmd_report s f from_user (Some txt) =
                     (s\<lparr>complaints := complaints s @ [row]\<rparr>, [Answer ReportSent])
                 \<and> k_from_user_id row = Some (u_id dbu)
                 \<and> reason row = Some (strip (after_first_space txt))
                 \<and> (length (user_matches s (u_id dbu)) \<le> 100 \<longrightarrow>
                      user_active_chats s (u_id dbu) \<noteq> [] \<longrightarrow>
                      (\<exists>c m. get_active_chat_for_user s (u_id dbu) = Some (c, m)
                             \<and> c \<in> set (user_active_chats s (u_id dbu))
                             \<and> (\<forall>c' \<in> set (user_active_chats s (u_id dbu)).
                                    c_updated_at c' \<le> c_updated_at c)
                             \<and> m \<in> set (user_matches s (u_id dbu)) \<and> match_id c = m_id m
                             \<and> against_user_id row = other_user_id m (u_id dbu)
                             \<and> against_user_id row \<noteq> None))
                 \<and> (user_active_chats s (u_id dbu) = [] \<longrightarrow> against_user_id row = None)))"
proof (intro conjI impI)
  assume "strip (after_first_space txt) = []"
  then show "cmd_report s f from_user (Some txt) = (s, [Answer ReportUsage])"
    using assms by (simp add: cmd_report_def)
next
  assume ne: "strip (after_first_space txt) \<noteq> []" and nf: "\<not> f"
  let ?uid = "u_id dbu"
  let ?t = "case get_active_chat_for_user s ?uid of
              None \<Rightarrow> None | Some (chat, m) \<Rightarrow> other_user_id m ?uid"
  let ?row = "\<lparr>k_id = next_id (map k_id (complaints s)), k_from_user_id = Some ?uid,
               against_user_id = ?t, reason = Some (strip (after_first_space txt)),
               resolved = False\<rparr>"
  have r: "cmd_report s f from_user (Some txt) =
             (s\<lparr>complaints := complaints s @ [?row]\<rparr>, [Answer ReportSent])"
    using assms ne nf by (simp add: cmd_report_def Let_def)
  have some: "length (user_matches s ?uid) \<le> 100 \<longrightarrow> user_active_chats s ?uid \<noteq> [] \<longrightarrow>
                (\<exists>c m. get_active_chat_for_user s ?uid = Some (c, m)
                       \<and> c \<in> set (user_active_chats s ?uid)
                       \<and> (\<forall>c' \<in> set (user_active_chats s ?uid). c_updated_at c' \<le> c_updated_at c)
                       \<and> m \<in> set (user_matches s ?uid) \<and> match_id c = m_id m
                       \<and> against_user_id ?row = other_user_id m ?uid
                       \<and> against_user_id ?row \<noteq> None)"
  proof (intro impI)
    assume "length (user_matches s ?uid) \<le> 100" and "user_active_chats s ?uid \<noteq> []"
    then obtain c m where g: "get_active_chat_for_user s ?uid = Some (c, m)"
      and late: "\<forall>c' \<in> set (user_active_chats s ?uid). c_updated_at c' \<le> c_updated_at c"
      using get_active_chat_found by blast
    note snd = get_active_chat_sound [OF g]
    show "\<exists>c m. get_active_chat_for_user s ?uid = Some (c, m)
                 \<and> c \<in> set (user_active_chats s ?uid)
                 \<and> (\<forall>c' \<in> set (user_active_chats s ?uid). c_updated_at c' \<le> c_updated_at c)
                 \<and> m \<in> set (user_matches s ?uid) \<and> match_id c = m_id m
                 \<and> against_user_id ?row = other_user_id m ?uid
                 \<and> against_user_id ?row \<noteq> None"
      using g late snd by (intro exI [of _ c] exI [of _ m]) simp
  qed
  have none: "user_active_chats s ?uid = [] \<longrightarrow> against_user_id ?row = None"
    using get_active_chat_none by simp
  show "\<exists>row. cmd_report s f from_user (Some txt) =
                     (s\<lparr>complaints := complaints s @ [row]\<rparr>, [Answer ReportSent])
                 \<and> k_from_user_id row = Some (u_id dbu)
                 \<and> reason row = Some (strip (after_first_space txt))
                 \<and> (length (user_matches s (u_id dbu)) \<le> 100 \<longrightarrow>
                      user_active_chats s (u_id dbu) \<noteq> [] \<longrightarrow>
                      (\<exists>c m. get_active_chat_for_user s (u_id dbu) = Some (c, m)
                             \<and> c \<in> set (user_active_chats s (u_id dbu))
                             \<and> (\<forall>c' \<in> set (user_active_chats s (u_id dbu)).
                                    c_updated_at c' \<le> c_updated_at c)
                             \<and> m \<in> set (user_matches s (u_id dbu)) \<and> match_id c = m_id m
                             \<and> against_user_id row = other_user_id m (u_id dbu)
                             \<and> against_user_id row \<noteq> None))
                 \<and> (user_active_chats s (u_id dbu) = [] \<longrightarrow> against_user_id row = None)"
    using r some none by (intro exI [of _ ?row]) simp
qed

theorem C6_report_witness:
  "db_user_from_message chat_store (Some 101) = Some (mk_user 1 101)
   \<and> cmd_report chat_store False (Some 101) (Some (''/report  '' @ [CHR 0xA0])) =
       (chat_store, [Answer ReportUsage])
   \<and> length (user_matches chat_store 1) \<le> 100
   \<and> user_active_chats chat_store 1 \<noteq> []
   \<and> length (complaints (fst (cmd_report chat_store False (Some 101) (Some ''/report spam'')))) = 1
   \<and> map against_user_id
         (complaints (fst (cmd_report chat_store False (Some 101) (Some ''/report spam'')))) =
       [Some 2]
   \<and> map reason
         (complaints (fst (cmd_report chat_store False (Some 101) (Some ''/report spam'')))) =
       [Some ''spam'']"
proof -
  let ?m = "\<lparr>m_id = 1, user1_id = 1, user2_id = 2, m_is_active = True\<rparr>"
  have u: "db_user_from_message chat_store (Some 101) = Some (mk_user 1 101)"
    by code_simp
  have uid: "u_id (mk_user 1 101) = 1"
    by (simp add: mk_user_def)
  have e: "strip (after_first_space (''/report  '' @ [CHR 0xA0])) = []"
    by code_simp
  have ne: "strip (after_first_space ''/report spam'') = ''spam''"
    by code_simp
  have len: "length (user_matches chat_store 1) \<le> 100"
    by code_simp
  have act: "user_active_chats chat_store 1 \<noteq> []"
    by code_simp
  have ms: "set (user_matches chat_store 1) = {?m}"
    by code_simp
  have o: "other_user_id ?m 1 = Some 2"
    by code_simp
  have nc: "complaints chat_store = []"
    by (simp add: chat_store_def)
  have w1: "cmd_report chat_store False (Some 101) (Some (''/report  '' @ [CHR 0xA0])) =
              (chat_store, [Answer ReportUsage])"
    using C6_report [OF u, of "''/report  '' @ [CHR 0xA0]" False] e by simp
  from C6_report [OF u, of "''/report spam''" False, unfolded uid] ne len act
  obtain row c m where r: "cmd_report chat_store False (Some 101) (Some ''/report spam'') =
                         (chat_store\<lparr>complaints := complaints chat_store @ [row]\<rparr>,
                          [Answer ReportSent])"
      and rs: "reason row = Some ''spam''"
      and mm: "m \<in> set (user_matches chat_store 1)"
      and ag: "against_user_id row = other_user_id m 1"
    by auto
  have "against_user_id row = Some 2"
    using ag mm ms o by simp
  then show ?thesis using u w1 len act r rs nc by simp
qed

text \<open>
  C7 on the store \<open>chat_store\<close>, where user 1 (Telegram 101) is the first user of the
  match and user 2 (Telegram 102) the second. User 2 asks for the exchange, so the prompt
  with the two buttons goes to user 1, and user 1 presses reject. \<^verbatim>\<open>cb_share_contact\<close>
  never reads who pressed: the decline notice goes to the first user of the match, here
  the one who rejected, and the confirmation of a rejection goes to the second user, here
  the one who asked.
\<close>

theorem C7_reject_wording_by_position:
  "cmd_share_contact chat_store False (Some 102) =
     [Answer ContactRequestSent,
      SendMessage 101 (ContactRequestPrompt ''chat:approve:1'' ''chat:reject:1'')]
   \<and> cb_share_contact chat_store all_up ''chat:reject:1'' =
     [SendMessage 101 PeerDeclinedContacts, SendMessage 102 YouDeclinedContacts,
      CallAnswer Declined]"
  by code_simp

text \<open>
  C10. An approve callback that carries the identifier of a stored match, whose two users
  have rows in \<^verbatim>\<open>Users\<close> with Telegram identifiers the bot can reach: each of the two is
  sent the link to the other and the callback is answered as done. The handler takes
  neither the chats nor the user who pressed into account: the result is the same
  whatever the table of chats holds. A callback whose identifier has no match row is
  answered as not found, and nothing is sent.
\<close>

theorem C10_approve_sends_contacts:
  assumes "parse_cb data = Some (''approve'', mid)"
    and "get_match_by_id s mid = Some m"
    and "tg_id_of s (user1_id m) = Some ta" and "ta \<noteq> 0"
    and "tg_id_of s (user2_id m) = Some tb" and "tb \<noteq> 0"
    and "\<not> down ta" and "\<not> down tb"
  shows "cb_share_contact s down data =
           [SendMessage ta (ContactsApproved (''tg://user?id='' @ show_int tb)),
            SendMessage tb (ContactsApproved (''tg://user?id='' @ show_int ta)),
            CallAnswer ContactExchangeDone]
       \<and> (\<forall>cs. cb_share_contact (s\<lparr>chats := cs\<rparr>) down data = cb_share_contact s down data)
       \<and> (\<forall>s'. get_match_by_id s' mid = None \<longrightarrow>
                 cb_share_contact s' down data = [CallAnswer MatchNotFound])"
  using assms
  by (simp add: cb_share_contact_def Let_def mention_def)

theorem C10_approve_sends_contacts_witness:
  "get_active_chat_for_user (chat_store\<lparr>chats := []\<rparr>) 1 = None
   \<and> get_active_chat_for_user (chat_store\<lparr>chats := []\<rparr>) 2 = None
   \<and> parse_cb ''chat:approve:1'' = Some (''approve'', 1)
   \<and> cb_share_contact (chat_store\<lparr>chats := []\<rparr>) all_up ''chat:approve:1'' =
       [SendMessage 101 (ContactsApproved ''tg://user?id=102''),
        SendMessage 102 (ContactsApproved ''tg://user?id=101''),
        CallAnswer ContactExchangeDone]
   \<and> cb_share_contact chat_store all_up ''chat:approve:7'' = [CallAnswer MatchNotFound]"
proof -
  let ?s = "chat_store\<lparr>chats := []\<rparr>"
  let ?m = "\<lparr>m_id = 1, user1_id = 1, user2_id = 2, m_is_active = True\<rparr>"
  have n: "get_active_chat_for_user ?s 1 = None" "get_active_chat_for_user ?s 2 = None"
    by code_simp+
  have p: "parse_cb ''chat:approve:1'' = Some (''approve'', 1)"
    by code_simp
  have g: "get_match_by_id ?s 1 = Some ?m"
    by code_simp
  have ta: "tg_id_of ?s (user1_id ?m) = Some 101" and tb: "tg_id_of ?s (user2_id ?m) = Some 102"
    by code_simp+
  have up: "\<not> all_up 101" "\<not> all_up 102"
    by (simp_all add: all_up_def)
  have sh: "show_int 101 = ''101''" "show_int 102 = ''102''"
    by code_simp+
  have p7: "parse_cb ''chat:approve:7'' = Some (''approve'', 7)"
    by code_simp
  have none7: "get_match_by_id chat_store 7 = None"
    by code_simp
  note a = C10_approve_sends_contacts [OF p g ta _ tb _ up, unfolded sh]
  have w1: "cb_share_contact ?s all_up ''chat:approve:1'' =
       [SendMessage 101 (ContactsApproved ''tg://user?id=102''),
        SendMessage 102 (ContactsApproved ''tg://user?id=101''),
        CallAnswer ContactExchangeDone]"
    using a by simp
  have g1: "get_match_by_id chat_store 7 = None \<longrightarrow>
              cb_share_contact chat_store all_up ''chat:approve:7'' = [CallAnswer MatchNotFound]"
    by (simp add: cb_share_contact_def p7)
  have w2: "cb_share_contact chat_store all_up ''chat:approve:7'' = [CallAnswer MatchNotFound]"
    using g1 none7 by simp
  show ?thesis using n p w1 w2 by blast
qed

section \<open>Properties of the interest and match engine\<close>

lemma relates_min_max: "relates (min a b) (max a b) = relates a b"
  by (auto simp: relates_def min_def max_def fun_eq_iff)

lemma relates_sym: "relates a b = relates b a"
  by (auto simp: relates_def fun_eq_iff)

lemma get_match_between_relates:
  "get_match_between s False x y = first_row (filter (relates x y) (matches s))"
  by (simp add: get_match_between_def relates_def [abs_def])

lemma create_match_matches:
  assumes "a \<noteq> b" "\<not> lookup_raises f" "\<not> insert_raises f"
  shows "matches (fst (create_match s f a b)) =
           (if filter (relates a b) (matches s) \<noteq> [] then matches s
            else matches s @ [\<lparr>m_id = next_id (map m_id (matches s)), user1_id = min a b,
                               user2_id = max a b, m_is_active = True\<rparr>])"
  using assms
  by (simp add: create_match_def Let_def get_match_between_relates relates_min_max)

lemma create_match_others [simp]:
  "likes (fst (create_match s f a b)) = likes s"
  "users (fst (create_match s f a b)) = users s"
  by (simp_all add: create_match_def Let_def)

lemma insert_like_others [simp]:
  "matches (insert_like s r a b m v) = matches s"
  "users (insert_like s r a b m v) = users s"
  "profiles (insert_like s r a b m v) = profiles s"
  by (simp_all add: insert_like_def)

lemma check_reciprocal_rows:
  "check_reciprocal_like s False a b \<longleftrightarrow> like_rows s b a \<noteq> []"
  by (simp add: check_reciprocal_like_def like_rows_def)

lemma like_rows_insert_like:
  "like_rows (insert_like s False a b m v) x y =
     (if like_rows s a b \<noteq> []
      then map (\<lambda>l. if from_user_id l = a \<and> to_user_id l = b
                     then l\<lparr>message := m, video_url := v\<rparr> else l) (like_rows s x y)
      else like_rows s x y @
           (if a = x \<and> b = y
            then [\<lparr>l_id = next_id (map l_id (likes s)), from_user_id = a, to_user_id = b,
                   message = m, video_url = v\<rparr>] else []))"
proof -
  have e: "(\<exists>l \<in> set (likes s). from_user_id l = a \<and> to_user_id l = b) \<longleftrightarrow> like_rows s a b \<noteq> []"
    by (auto simp: like_rows_def filter_empty_conv)
  show ?thesis
    unfolding like_rows_def insert_like_def e [unfolded like_rows_def]
    by (simp add: filter_map_stable)
qed

lemma like_rows_kept:
  "like_rows s x y \<noteq> [] \<Longrightarrow> like_rows (insert_like s r a b m v) x y \<noteq> []"
  by (cases r) (simp_all add: like_rows_insert_like, simp add: insert_like_def like_rows_def)

lemma like_rows_added:
  "like_rows (insert_like s False a b m v) a b \<noteq> []"
  by (simp add: like_rows_insert_like)

lemma like_steps_fst:
  "fst (like_steps s flt du my t m v lt) =
     (let s1 = insert_like s (upsert_raises flt) (u_id du) t m v
      in if check_reciprocal_like s1 (reciprocal_raises flt) (u_id du) t
         then fst (create_match s1 (match_flt flt) (u_id du) t)
         else s1)"
  by (simp add: like_steps_def Let_def split: prod.splits option.splits)

lemma show_next_others [simp]:
  "matches (fst (show_next s env du)) = matches s"
  "likes (fst (show_next s env du)) = likes s"
  "users (fst (show_next s env du)) = users s"
  by (simp_all add: show_next_def show_profile_def mark_profile_viewed_def split: option.splits)

lemma feed_like_store:
  assumes "db_user_from_message s mf = Some du"
    and "parse_feed_cb data = Some (''like'', p, t)"
  shows "fst (feed_actions s st flt env True mf cf data) =
           fst (show_next (fst (like_steps s flt du cf t None None None)) env du)"
  using assms by (simp add: feed_actions_def split: prod.splits)

lemma press_like_matches:
  assumes "db_user_from_message s mf = Some du"
    and "parse_feed_cb data = Some (''like'', p, t)"
    and "store_accepts f" and "u_id du \<noteq> t"
  shows "matches (fst (feed_actions s st f e True mf c data)) =
           (if like_rows s t (u_id du) \<noteq> [] \<and> filter (relates (u_id du) t) (matches s) = []
            then matches s @ [\<lparr>m_id = next_id (map m_id (matches s)),
                               user1_id = min (u_id du) t, user2_id = max (u_id du) t,
                               m_is_active = True\<rparr>]
            else matches s)"
proof -
  have r: "like_rows (insert_like s False (u_id du) t None None) t (u_id du) \<noteq> []
             \<longleftrightarrow> like_rows s t (u_id du) \<noteq> []"
    using assms(4) by (simp add: like_rows_insert_like)
  show ?thesis
    using assms(3,4)
    by (simp add: feed_like_store [OF assms(1,2)] like_steps_fst Let_def store_accepts_def
        check_reciprocal_rows r create_match_matches)
qed

lemma press_like_rows:
  assumes "db_user_from_message s mf = Some du"
    and "parse_feed_cb data = Some (''like'', p, t)"
  shows "like_rows s x y \<noteq> [] \<Longrightarrow> like_rows (fst (feed_actions s st f e True mf c data)) x y \<noteq> []"
    and "\<not> upsert_raises f \<Longrightarrow> like_rows (fst (feed_actions s st f e True mf c data)) (u_id du) t \<noteq> []"
    and "users (fst (feed_actions s st f e True mf c data)) = users s"
proof -
  have l: "likes (fst (feed_actions s st f e True mf c data)) =
             likes (insert_like s (upsert_raises f) (u_id du) t None None)"
    by (simp add: feed_like_store [OF assms] like_steps_fst Let_def)
  have eq: "\<And>x y. like_rows (fst (feed_actions s st f e True mf c data)) x y =
             like_rows (insert_like s (upsert_raises f) (u_id du) t None None) x y"
    by (simp add: like_rows_def l)
  show "like_rows s x y \<noteq> [] \<Longrightarrow> like_rows (fst (feed_actions s st f e True mf c data)) x y \<noteq> []"
    by (simp add: eq like_rows_kept)
  show "\<not> upsert_raises f \<Longrightarrow> like_rows (fst (feed_actions s st f e True mf c data)) (u_id du) t \<noteq> []"
    by (simp add: eq like_rows_added)
  show "users (fst (feed_actions s st f e True mf c data)) = users s"
    by (simp add: feed_like_store [OF assms] like_steps_fst Let_def)
qed

lemma filter_relates_new:
  "a \<noteq> b \<Longrightarrow> relates a b \<lparr>m_id = i, user1_id = min a b, user2_id = max a b, m_is_active = True\<rparr>"
  by (auto simp: relates_def min_def max_def)

lemma insert_like_as_update:
  "insert_like s r a b m v = s\<lparr>likes := likes (insert_like s r a b m v)\<rparr>"
  by (simp add: insert_like_def)

lemma create_match_likes_update:
  "create_match (s\<lparr>likes := L\<rparr>) f a b =
     (case create_match s f a b of (s', m) \<Rightarrow> (s'\<lparr>likes := L\<rparr>, m))"
  by (simp add: create_match_def get_match_between_def Let_def)

lemma reciprocal_other_direction:
  assumes "a \<noteq> t"
  shows "check_reciprocal_like (insert_like s r a t m v) x a t = check_reciprocal_like s x a t"
proof (cases x)
  case True
  then show ?thesis by (simp add: check_reciprocal_like_def)
next
  case False
  have "like_rows (insert_like s r a t m v) t a \<noteq> [] \<longleftrightarrow> like_rows s t a \<noteq> []"
    using assms by (cases r) (simp_all add: like_rows_insert_like, simp add: insert_like_def like_rows_def)
  with False show ?thesis by (simp add: check_reciprocal_rows)
qed

lemma like_steps_upsert:
  assumes "u_id du \<noteq> t"
  shows "like_steps s (flt\<lparr>upsert_raises := False\<rparr>) du my t m v lt =
           (case like_steps s (flt\<lparr>upsert_raises := True\<rparr>) du my t m v lt of
              (s', ev) \<Rightarrow> (s'\<lparr>likes := likes (insert_like s False (u_id du) t m v)\<rparr>, ev))"
proof -
  define L where "L = likes (insert_like s False (u_id du) t m v)"
  have i: "insert_like s False (u_id du) t m v = s\<lparr>likes := L\<rparr>"
    unfolding L_def by (rule insert_like_as_update)
  have t: "insert_like s True (u_id du) t m v = s" by (simp add: insert_like_def)
  have r: "check_reciprocal_like (s\<lparr>likes := L\<rparr>) (reciprocal_raises flt) (u_id du) t
             = check_reciprocal_like s (reciprocal_raises flt) (u_id du) t"
    using reciprocal_other_direction [OF assms, of s False m v] by (simp add: i)
  show ?thesis
    unfolding like_steps_def L_def [symmetric]
    by (auto simp: i t r Let_def create_match_likes_update resolve_tg_id_def tg_id_of_def
        split: prod.splits option.splits)
qed

lemma show_next_likes_update:
  "show_next (s\<lparr>likes := L\<rparr>) env du =
     (case show_next s env du of (s', ev) \<Rightarrow> (s'\<lparr>likes := L\<rparr>, ev))"
  by (simp add: show_next_def fetch_next_profile_def get_recently_viewed_ids_def
      show_profile_def mark_profile_viewed_def Let_def split: option.splits)

lemma like_steps_upsert_fails_likes:
  "likes (fst (like_steps s (flt\<lparr>upsert_raises := True\<rparr>) du my t m v lt)) = likes s"
  by (simp add: like_steps_fst Let_def insert_like_def)

text \<open>
  C2. Two distinct users \<open>A\<close> and \<open>B\<close> of the store, no match row between them, and a
  store that accepts every call: after \<open>A\<close> has pressed like on \<open>B\<close> and \<open>B\<close> on \<open>A\<close>
  (the roles are symmetric, so this is either order), exactly one match row relates the
  pair, and it holds the smaller identifier first. A further like press by either of them,
  which runs the reciprocal check and \<^verbatim>\<open>_create_match\<close> again, leaves the match table as
  it is.
\<close>

theorem C2_reciprocal_likes_single_match:
  assumes ua: "db_user_from_message s (Some ta) = Some ua"
    and ub: "db_user_from_message s (Some tb) = Some ub"
    and ne: "u_id ua \<noteq> u_id ub"
    and da: "parse_feed_cb da = Some (''like'', pa, u_id ub)"
    and db: "parse_feed_cb db = Some (''like'', pb, u_id ua)"
    and acc: "store_accepts flt_a" "store_accepts flt_b" "store_accepts flt_c"
    and none: "filter (relates (u_id ua) (u_id ub)) (matches s) = []"
  shows "let s1 = fst (feed_actions s st_a flt_a env_a True (Some ta) cf_a da);
             s2 = fst (feed_actions s1 st_b flt_b env_b True (Some tb) cf_b db)
         in (\<exists>m. filter (relates (u_id ua) (u_id ub)) (matches s2) = [m]
                 \<and> user1_id m = min (u_id ua) (u_id ub) \<and> user2_id m = max (u_id ua) (u_id ub)
                 \<and> user1_id m < user2_id m)
            \<and> matches (fst (feed_actions s2 st_c flt_c env_c True (Some ta) cf_c da)) = matches s2
            \<and> matches (fst (feed_actions s2 st_c flt_c env_c True (Some tb) cf_d db)) = matches s2"
proof -
  define s1 where "s1 = fst (feed_actions s st_a flt_a env_a True (Some ta) cf_a da)"
  define s2 where "s2 = fst (feed_actions s1 st_b flt_b env_b True (Some tb) cf_b db)"
  let ?a = "u_id ua" and ?b = "u_id ub"
  have nf: "\<not> upsert_raises flt_a" "\<not> upsert_raises flt_b"
    using acc by (simp_all add: store_accepts_def)
  have ne': "?b \<noteq> ?a" using ne by simp
  have u1: "db_user_from_message s1 (Some tb) = Some ub" "db_user_from_message s1 (Some ta) = Some ua"
    unfolding s1_def using ua ub by (simp_all only: db_user_users [OF press_like_rows(3) [OF ua da]])
  have u2: "db_user_from_message s2 (Some tb) = Some ub" "db_user_from_message s2 (Some ta) = Some ua"
    unfolding s2_def using u1 by (simp_all only: db_user_users [OF press_like_rows(3) [OF u1(1) db]])
  have m1: "matches s1 =
      (if like_rows s ?b ?a \<noteq> [] \<and> filter (relates ?a ?b) (matches s) = []
       then matches s @ [\<lparr>m_id = next_id (map m_id (matches s)), user1_id = min ?a ?b,
                          user2_id = max ?a ?b, m_is_active = True\<rparr>]
       else matches s)"
    unfolding s1_def by (rule press_like_matches [OF ua da acc(1) ne])
  have l1: "like_rows s1 ?a ?b \<noteq> []"
    unfolding s1_def by (rule press_like_rows(2) [OF ua da nf(1)])
  have m2: "matches s2 =
      (if like_rows s1 ?a ?b \<noteq> [] \<and> filter (relates ?b ?a) (matches s1) = []
       then matches s1 @ [\<lparr>m_id = next_id (map m_id (matches s1)), user1_id = min ?b ?a,
                          user2_id = max ?b ?a, m_is_active = True\<rparr>]
       else matches s1)"
    unfolding s2_def by (rule press_like_matches [OF u1(1) db acc(2) ne'])
  have l2: "like_rows s2 ?a ?b \<noteq> []" "like_rows s2 ?b ?a \<noteq> []"
    unfolding s2_def
    using press_like_rows(1) [OF u1(1) db l1] press_like_rows(2) [OF u1(1) db nf(2)] by simp_all
  have one: "\<exists>m. filter (relates ?a ?b) (matches s2) = [m]
                 \<and> user1_id m = min ?a ?b \<and> user2_id m = max ?a ?b \<and> user1_id m < user2_id m"
    using ne none l1
    by (auto simp: m2 m1 relates_sym [of ?b ?a] filter_relates_new min.commute max.commute)
  then have ex: "filter (relates ?a ?b) (matches s2) \<noteq> []" by auto
  have i1: "matches (fst (feed_actions s2 st_c flt_c env_c True (Some ta) cf_c da)) = matches s2"
    using ex by (simp add: press_like_matches [OF u2(2) da acc(3) ne])
  have i2: "matches (fst (feed_actions s2 st_c flt_c env_c True (Some tb) cf_d db)) = matches s2"
    using ex by (simp add: press_like_matches [OF u2(1) db acc(3) ne'] relates_sym [of ?b ?a])
  show ?thesis
    using one i1 i2 unfolding Let_def s1_def [symmetric] s2_def [symmetric] by blast
qed

theorem C2_reciprocal_likes_single_match_witness:
  "store_accepts no_like_faults
   \<and> (let s1 = fst (feed_actions pair_store idle no_like_faults calm True (Some 101) (Some 101)
                      ''feed:like:2:2'');
           s2 = fst (feed_actions s1 idle no_like_faults calm True (Some 102) (Some 102)
                      ''feed:like:1:1'')
       in (\<exists>m. filter (relates 1 2) (matches s2) = [m]
               \<and> user1_id m = 1 \<and> user2_id m = 2 \<and> user1_id m < user2_id m)
          \<and> matches (fst (feed_actions s2 idle no_like_faults calm True (Some 101) (Some 101)
                              ''feed:like:2:2'')) = matches s2
          \<and> matches (fst (feed_actions s2 idle no_like_faults calm True (Some 102) (Some 102)
                              ''feed:like:1:1'')) = matches s2)"
proof -
  have ua: "db_user_from_message pair_store (Some 101) = Some (mk_user 1 101)"
    by code_simp
  have ub: "db_user_from_message pair_store (Some 102) = Some (mk_user 2 102)"
    by code_simp
  have ne: "u_id (mk_user 1 101) \<noteq> u_id (mk_user 2 102)"
    by (simp add: mk_user_def)
  have da: "parse_feed_cb ''feed:like:2:2'' = Some (''like'', 2, u_id (mk_user 2 102))"
    by code_simp
  have db: "parse_feed_cb ''feed:like:1:1'' = Some (''like'', 1, u_id (mk_user 1 101))"
    by code_simp
  have acc: "store_accepts no_like_faults"
    by code_simp
  have none: "filter (relates (u_id (mk_user 1 101)) (u_id (mk_user 2 102))) (matches pair_store) = []"
    by code_simp
  have ids: "u_id (mk_user 1 101) = 1" "u_id (mk_user 2 102) = 2"
    by (simp_all add: mk_user_def)
  show ?thesis
    using C2_reciprocal_likes_single_match [OF ua ub ne da db acc acc acc none,
        where st_a = idle and env_a = calm and cf_a = "Some 101"
          and st_b = idle and env_b = calm and cf_b = "Some 102"
          and st_c = idle and env_c = calm and cf_c = "Some 101" and cf_d = "Some 102"] acc
    unfolding ids by simp
qed

text \<open>
  C3. Under the unique key of \<^verbatim>\<open>Likes\<close> (at most one row per ordered pair), two likes of
  the same target in a row leave exactly one row for the pair, and it carries the message
  and the video URL of the second like; this holds whether or not the first upsert
  raised, as long as the second one is accepted.
\<close>

theorem C3_second_like_overwrites:
  assumes "length (like_rows s a b) \<le> 1"
  shows "\<exists>l. like_rows (insert_like (insert_like s r a b m1 v1) False a b m2 v2) a b = [l]
             \<and> message l = m2 \<and> video_url l = v2"
proof -
  let ?s1 = "insert_like s r a b m1 v1"
  have b1: "length (like_rows ?s1 a b) \<le> 1"
    using assms by (cases r) (simp_all add: like_rows_insert_like, simp add: insert_like_def like_rows_def)
  show ?thesis
  proof (cases "like_rows ?s1 a b")
    case Nil
    then show ?thesis by (simp add: like_rows_insert_like)
  next
    case (Cons l ls)
    with b1 have ls: "ls = []" by simp
    have "l \<in> set (like_rows ?s1 a b)" using Cons by simp
    then have "from_user_id l = a \<and> to_user_id l = b" by (simp add: like_rows_def)
    then show ?thesis using Cons ls by (simp add: like_rows_insert_like)
  qed
qed

theorem C3_second_like_overwrites_witness:
  "length (like_rows liked_store 2 1) \<le> 1
   \<and> like_rows (insert_like (insert_like liked_store False 2 1 (Some ''hello'') None)
                  False 2 1 None (Some ''https://v/1.mp4'')) 2 1 =
       [\<lparr>l_id = 1, from_user_id = 2, to_user_id = 1, message = None,
         video_url = Some ''https://v/1.mp4''\<rparr>]"
proof -
  have h: "length (like_rows liked_store 2 1) \<le> 1"
    by code_simp
  have fields: "\<And>l. l \<in> set (like_rows (insert_like (insert_like liked_store False 2 1
                    (Some ''hello'') None) False 2 1 None (Some ''https://v/1.mp4'')) 2 1)
                 \<Longrightarrow> l_id l = 1 \<and> from_user_id l = 2 \<and> to_user_id l = 1"
    by (simp add: like_rows_def insert_like_def liked_store_def pair_store_def)
  from C3_second_like_overwrites [OF h, of False "Some ''hello''" None None "Some ''https://v/1.mp4''"]
  obtain l where l: "like_rows (insert_like (insert_like liked_store False 2 1
                       (Some ''hello'') None) False 2 1 None (Some ''https://v/1.mp4'')) 2 1 = [l]"
                    "message l = None" "video_url l = Some ''https://v/1.mp4''"
    by blast
  have "l_id l = 1 \<and> from_user_id l = 2 \<and> to_user_id l = 1"
    using fields [of l] l(1) by simp
  then have "l = \<lparr>l_id = 1, from_user_id = 2, to_user_id = 1, message = None,
                    video_url = Some ''https://v/1.mp4''\<rparr>"
    using l(2,3) by (cases l) simp
  then show ?thesis using h l(1) by simp
qed

text \<open>The two other like handlers treat a failed upsert in the same way.\<close>

lemma like_with_message_failed_upsert:
  assumes "db_user_from_message s from_user = Some du"
    and "target_user_id st = Some t" and "t \<noteq> 0" and "u_id du \<noteq> t"
    and "strip txt \<noteq> []"
  shows "snd (snd (like_with_message s st (flt\<lparr>upsert_raises := True\<rparr>) from_user (Some txt))) =
           snd (snd (like_with_message s st (flt\<lparr>upsert_raises := False\<rparr>) from_user (Some txt)))
       \<and> Answer LikeWithMessageSent
           \<in> set (snd (snd (like_with_message s st (flt\<lparr>upsert_raises := True\<rparr>) from_user
                               (Some txt))))"
  using assms
  by (simp add: like_with_message_def Let_def like_steps_upsert split: prod.splits)

lemma like_with_video_failed_upsert:
  assumes "db_user_from_message s from_user = Some du"
    and "target_user_id st = Some t" and "t \<noteq> 0" and "u_id du \<noteq> t"
    and "truthy_str content"
  shows "snd (snd (like_with_video s st (flt\<lparr>upsert_raises := True\<rparr>) from_user content
                     (Uploaded vurl))) =
           snd (snd (like_with_video s st (flt\<lparr>upsert_raises := False\<rparr>) from_user content
                       (Uploaded vurl)))
       \<and> Answer LikeWithVideoSent
           \<in> set (snd (snd (like_with_video s st (flt\<lparr>upsert_raises := True\<rparr>) from_user content
                               (Uploaded vurl))))"
  using assms
  by (simp add: like_with_video_def Let_def like_steps_upsert split: prod.splits)

text \<open>
  C8, as the claim states it, on the store \<open>liked_store\<close>: user 1 presses like on the
  card of user 2, who has liked user 1 before, and the upsert of the like row raises.
  The handler notifies user 2 of the like, finds the reciprocal like, creates the match,
  notifies both of the match and answers that the like was sent; no failure message goes
  out.
\<close>

theorem C8_failed_upsert_still_like_sent:
  "snd (snd (feed_actions liked_store idle (no_like_faults\<lparr>upsert_raises := True\<rparr>) calm True
               (Some 101) (Some 101) ''feed:like:2:2'')) =
     [SendMessage 102 (LikedBy ''Ann'' None), SendMessage 101 MutualMatch,
      SendMessage 102 MutualMatch, CallAnswer LikeSent, EditText NoMoreProfiles]
   \<and> matches (fst (feed_actions liked_store idle (no_like_faults\<lparr>upsert_raises := True\<rparr>) calm
                      True (Some 101) (Some 101) ''feed:like:2:2'')) =
     [\<lparr>m_id = 1, user1_id = 1, user2_id = 2, m_is_active = True\<rparr>]"
  by code_simp

text \<open>
  C8, amended: \<^verbatim>\<open>_insert_like\<close> only logs a failed upsert. When the upsert of a like on
  another user raises, no like row is written, and everything else goes as if the upsert
  had been accepted: the handler sends the same messages, among them the answer that the
  like was sent, and leaves the same match table.
\<close>

theorem C8_failed_upsert_only_logged:
  assumes "db_user_from_message s mf = Some du"
    and "parse_feed_cb data = Some (''like'', p, t)"
    and "u_id du \<noteq> t"
  shows "likes (fst (feed_actions s st (flt\<lparr>upsert_raises := True\<rparr>) env True mf cf data)) = likes s
       \<and> snd (snd (feed_actions s st (flt\<lparr>upsert_raises := True\<rparr>) env True mf cf data)) =
           snd (snd (feed_actions s st (flt\<lparr>upsert_raises := False\<rparr>) env True mf cf data))
       \<and> matches (fst (feed_actions s st (flt\<lparr>upsert_raises := True\<rparr>) env True mf cf data)) =
           matches (fst (feed_actions s st (flt\<lparr>upsert_raises := False\<rparr>) env True mf cf data))
       \<and> CallAnswer LikeSent
           \<in> set (snd (snd (feed_actions s st (flt\<lparr>upsert_raises := True\<rparr>) env True mf cf data)))"
proof -
  obtain s0 ev0 where k: "like_steps s (flt\<lparr>upsert_raises := True\<rparr>) du cf t None None None = (s0, ev0)"
    by (cases "like_steps s (flt\<lparr>upsert_raises := True\<rparr>) du cf t None None None")
  obtain s1 ev1 where n: "show_next s0 env du = (s1, ev1)"
    by (cases "show_next s0 env du")
  have l0: "likes s0 = likes s"
    using like_steps_upsert_fails_likes [of s flt du cf t None None None] k by simp
  have bad: "feed_actions s st (flt\<lparr>upsert_raises := True\<rparr>) env True mf cf data =
               (s1, st, ev0 @ [CallAnswer LikeSent] @ ev1)"
    using assms(1,2) k n by (simp add: feed_actions_def)
  have ok: "feed_actions s st (flt\<lparr>upsert_raises := False\<rparr>) env True mf cf data =
               (s1\<lparr>likes := likes (insert_like s False (u_id du) t None None)\<rparr>, st,
                ev0 @ [CallAnswer LikeSent] @ ev1)"
    using assms(1,2) k n
    by (simp add: feed_actions_def like_steps_upsert [OF assms(3)] show_next_likes_update)
  have "likes s1 = likes s0"
    using show_next_others(2) [of s0 env du] n by simp
  then show ?thesis using l0 by (simp add: bad ok)
qed

theorem C8_failed_upsert_only_logged_witness:
  "db_user_from_message liked_store (Some 101) = Some (mk_user 1 101)
   \<and> parse_feed_cb ''feed:like:2:2'' = Some (''like'', 2, 2)
   \<and> likes (fst (feed_actions liked_store idle (no_like_faults\<lparr>upsert_raises := True\<rparr>) calm
                     True (Some 101) (Some 101) ''feed:like:2:2'')) = likes liked_store
   \<and> CallAnswer LikeSent
        \<in> set (snd (snd (feed_actions liked_store idle (no_like_faults\<lparr>upsert_raises := True\<rparr>)
                           calm True (Some 101) (Some 101) ''feed:like:2:2'')))"
proof -
  have u: "db_user_from_message liked_store (Some 101) = Some (mk_user 1 101)"
    by code_simp
  have p: "parse_feed_cb ''feed:like:2:2'' = Some (''like'', 2, 2)"
    by code_simp
  have ne: "u_id (mk_user 1 101) \<noteq> 2"
    by (simp add: mk_user_def)
  show ?thesis
    using C8_failed_upsert_only_logged [OF u p ne, of idle no_like_faults calm "Some 101"] u p
    by blast
qed

text \<open>
  C9. \<^verbatim>\<open>_create_match\<close> on one and the same user returns no match and leaves the store as
  it is, whatever the store answers; and every row in the match table after a call on any
  two users was there before or holds the smaller of the two identifiers first, strictly
  below the second.
\<close>

theorem C9_create_match_canonical:
  "create_match s flt a a = (s, None)
   \<and> (\<forall>m \<in> set (matches (fst (create_match s flt a b))).
         m \<in> set (matches s) \<or>
         (user1_id m = min a b \<and> user2_id m = max a b \<and> user1_id m < user2_id m))"
  by (auto simp: create_match_def Let_def)

theorem C9_create_match_canonical_witness:
  "create_match pair_store no_match_faults 2 2 = (pair_store, None)
   \<and> \<lparr>m_id = 1, user1_id = 1, user2_id = 2, m_is_active = True\<rparr>
        \<in> set (matches (fst (create_match pair_store no_match_faults 2 1)))
   \<and> \<lparr>m_id = 1, user1_id = 1, user2_id = 2, m_is_active = True\<rparr> \<notin> set (matches pair_store)
   \<and> user1_id \<lparr>m_id = 1, user1_id = 1, user2_id = 2, m_is_active = True\<rparr>
        < user2_id \<lparr>m_id = 1, user1_id = 1, user2_id = 2, m_is_active = True\<rparr>"
proof -
  let ?m = "\<lparr>m_id = 1, user1_id = 1, user2_id = 2, m_is_active = True\<rparr>"
  have i: "?m \<in> set (matches (fst (create_match pair_store no_match_faults 2 1)))"
    by code_simp
  have o: "?m \<notin> set (matches pair_store)"
    by (simp add: pair_store_def)
  have "user1_id ?m < user2_id ?m"
    using C9_create_match_canonical [of pair_store no_match_faults 2 1] i o by blast
  moreover have "create_match pair_store no_match_faults 2 2 = (pair_store, None)"
    using C9_create_match_canonical [of pair_store no_match_faults 2 1] by blast
  ultimately show ?thesis using i o by blast
qed

section \<open>Properties of the feed selector\<close>

lemma fetch_next_pool:
  "fetch_next_profile s uid t1 t2 =
     (case take 20 (sort_key boost_key (filter (boost_live t2) (common_pool s uid t1))) of
        p # _ \<Rightarrow> Some p
      | [] \<Rightarrow> first_row (take 50 (sort_key (\<lambda>p. - p_created_at p) (common_pool s uid t1))))"
  by (simp add: fetch_next_profile_def common_pool_def Let_def split: list.splits)

lemma viewed_ids_iff:
  "pid \<in> set (get_recently_viewed_ids s uid now days) \<longleftrightarrow> recently_viewed s uid now days pid"
  by (auto simp: get_recently_viewed_ids_def recently_viewed_def Let_def)

lemma pool_not_viewed:
  "p \<in> set (common_pool s uid t1) \<Longrightarrow> \<not> recently_viewed s uid t1 2 (p_id p)"
  unfolding viewed_ids_iff [symmetric]
  by (auto simp: common_pool_def apply_common_filters_def Let_def split: if_splits)

lemma fetch_next_in_pool:
  assumes "fetch_next_profile s uid t1 t2 = Some p"
  shows "p \<in> set (common_pool s uid t1)"
proof (cases "take 20 (sort_key boost_key (filter (boost_live t2) (common_pool s uid t1)))")
  case Nil
  with assms have "first_row (take 50 (sort_key (\<lambda>p. - p_created_at p) (common_pool s uid t1))) = Some p"
    by (simp add: fetch_next_pool)
  then have "p \<in> set (take 50 (sort_key (\<lambda>p. - p_created_at p) (common_pool s uid t1)))"
    by (rule first_row_mem)
  then show ?thesis by (auto dest: in_set_takeD)
next
  case (Cons x xs)
  with assms have "x = p" by (simp add: fetch_next_pool)
  then have "p \<in> set (take 20 (sort_key boost_key (filter (boost_live t2) (common_pool s uid t1))))"
    using Cons by simp
  then show ?thesis by (auto dest: in_set_takeD)
qed

lemma fetch_next_boosted:
  assumes "q \<in> set (common_pool s uid t1)" and "boost_live t2 q"
  shows "\<exists>p. fetch_next_profile s uid t1 t2 = Some p \<and> p \<in> set (common_pool s uid t1)
             \<and> boost_live t2 p
             \<and> (\<forall>q' \<in> set (common_pool s uid t1).
                   boost_live t2 q' \<longrightarrow> the (boosted_until q') \<le> the (boosted_until p))"
proof -
  let ?bs = "filter (boost_live t2) (common_pool s uid t1)"
  have "q \<in> set ?bs" using assms by simp
  then have "sort_key boost_key ?bs \<noteq> []" by (metis empty_iff list.set(1) set_sort)
  then obtain p ps where sp: "sort_key boost_key ?bs = p # ps"
    by (cases "sort_key boost_key ?bs") auto
  then have f: "fetch_next_profile s uid t1 t2 = Some p"
    by (simp add: fetch_next_pool)
  have "p \<in> set (sort_key boost_key ?bs)" using sp by simp
  then have pin: "p \<in> set ?bs" by simp
  have least: "\<And>q'. q' \<in> set ?bs \<Longrightarrow> boost_key p \<le> boost_key q'"
    using sorted_head_least [OF sp] .
  have "\<forall>q' \<in> set (common_pool s uid t1).
          boost_live t2 q' \<longrightarrow> the (boosted_until q') \<le> the (boosted_until p)"
  proof (intro ballI impI)
    fix q' assume "q' \<in> set (common_pool s uid t1)" "boost_live t2 q'"
    then have "boost_key p \<le> boost_key q'" using least by simp
    moreover have "boost_live t2 p" using pin by simp
    ultimately show "the (boosted_until q') \<le> the (boosted_until p)"
      using \<open>boost_live t2 q'\<close> by (auto simp: boost_key_def boost_live_def split: option.splits)
  qed
  with f pin show ?thesis by auto
qed

text \<open>
  C4. The profile \<^verbatim>\<open>_fetch_next_profile\<close> returns has no view by this viewer in the two days
  before the clock reading of \<^verbatim>\<open>_get_recently_viewed_ids\<close>. And whenever some profile that
  passes the common filters has a boost window that is still open, the selector returns
  a profile that passes the filters and has an open boost window, the one whose window
  ends last; a profile without an open window is returned only when there is no such
  candidate.
\<close>

theorem C4_feed_selector:
  "(fetch_next_profile s uid t1 t2 = Some p \<longrightarrow> \<not> recently_viewed s uid t1 2 (p_id p))
   \<and> (\<forall>q \<in> set (common_pool s uid t1). boost_live t2 q \<longrightarrow>
        (\<exists>p'. fetch_next_profile s uid t1 t2 = Some p' \<and> p' \<in> set (common_pool s uid t1)
              \<and> boost_live t2 p'
              \<and> (\<forall>q' \<in> set (common_pool s uid t1).
                    boost_live t2 q' \<longrightarrow> the (boosted_until q') \<le> the (boosted_until p'))))"
  using fetch_next_in_pool pool_not_viewed fetch_next_boosted by blast

theorem C4_feed_selector_witness:
  "mk_profile 3 3 ''Lea'' ''female'' ''Paris'' (Some 203600000000) 30
     \<in> set (common_pool paris_store 1 noon)
   \<and> boost_live noon (mk_profile 3 3 ''Lea'' ''female'' ''Paris'' (Some 203600000000) 30)
   \<and> fetch_next_profile paris_store 1 noon noon =
       Some (mk_profile 3 3 ''Lea'' ''female'' ''Paris'' (Some 203600000000) 30)
   \<and> \<not> recently_viewed paris_store 1 noon 2 3
   \<and> fetch_next_profile (fst (cmd_feed paris_store at_noon (Some 101))) 1 noon noon =
       Some (mk_profile 2 2 ''Zoe'' ''female'' ''Paris'' None 20)"
proof -
  let ?lea = "mk_profile 3 3 ''Lea'' ''female'' ''Paris'' (Some 203600000000) 30"
  have i: "?lea \<in> set (common_pool paris_store 1 noon)"
    by code_simp
  have b: "boost_live noon ?lea"
    by code_simp
  have id: "p_id ?lea = 3"
    by (simp add: mk_profile_def)
  from C4_feed_selector [of paris_store 1 noon noon ?lea] i b
  obtain p' where p': "fetch_next_profile paris_store 1 noon noon = Some p'"
      "p' \<in> set (common_pool paris_store 1 noon)" "boost_live noon p'"
      "the (boosted_until ?lea) \<le> the (boosted_until p')"
    by blast
  have pool: "set (common_pool paris_store 1 noon) =
                {mk_profile 2 2 ''Zoe'' ''female'' ''Paris'' None 20, ?lea}"
    by code_simp
  have "\<not> boost_live noon (mk_profile 2 2 ''Zoe'' ''female'' ''Paris'' None 20)"
    by code_simp
  with p'(2,3) pool have "p' = ?lea" by auto
  with p'(1) have f: "fetch_next_profile paris_store 1 noon noon = Some ?lea" by simp
  with C4_feed_selector [of paris_store 1 noon noon ?lea] id
  have v: "\<not> recently_viewed paris_store 1 noon 2 3" by simp
  have n: "fetch_next_profile (fst (cmd_feed paris_store at_noon (Some 101))) 1 noon noon =
             Some (mk_profile 2 2 ''Zoe'' ''female'' ''Paris'' None 20)"
    by code_simp
  show ?thesis using i b f v n by blast
qed

section \<open>Properties of profile persistence\<close>

lemma filter_map_stable_on:
  assumes "\<And>x. x \<in> set xs \<Longrightarrow> P (f x) = P x"
  shows "filter P (map f xs) = map f (filter P xs)"
  using assms by (induction xs) auto

lemma foldr_max_ge: "x \<in> set ids \<Longrightarrow> x \<le> foldr max ids (0::int)"
  by (induction ids) auto

lemma next_id_fresh: "next_id ids \<notin> set ids"
  using foldr_max_ge [of "next_id ids" ids] by (auto simp: next_id_def)

lemma upsert_user_existing:
  assumes "get_user_by_tg_id s tg = Some x"
  shows "get_user_by_tg_id (upsert_user_basic s tg un fn ln) tg =
           Some (x\<lparr>username := un, first_name := fn, last_name := ln\<rparr>)"
proof -
  let ?f = "\<lambda>u. if tg_id u = tg then u\<lparr>username := un, first_name := fn, last_name := ln\<rparr> else u"
  from assms obtain rest where f: "filter (\<lambda>u. tg_id u = tg) (users s) = x # rest"
    by (cases "filter (\<lambda>u. tg_id u = tg) (users s)") (auto simp: get_user_by_tg_id_def)
  then have "x \<in> set (filter (\<lambda>u. tg_id u = tg) (users s))" by simp
  then have x: "x \<in> set (users s)" "tg_id x = tg" by auto
  have "filter (\<lambda>u. tg_id u = tg) (map ?f (users s)) = map ?f (filter (\<lambda>u. tg_id u = tg) (users s))"
    by (rule filter_map_stable) simp
  then show ?thesis using x f
    by (auto simp: get_user_by_tg_id_def upsert_user_basic_def)
qed

lemma upsert_user_profiles [simp]:
  "profiles (upsert_user_basic s tg un fn ln) = profiles s"
  by (simp add: upsert_user_basic_def)

lemma run_profiles:
  assumes "get_user_by_tg_id s (t_id u) = Some dbu"
  shows "profiles (fst (create_or_update_profile s False now db_now (Some u) d)) =
           (case first_row (user_profiles s (u_id dbu)) of
              Some e \<Rightarrow> map (\<lambda>p. if p_id p = p_id e then apply_payload (u_id dbu) d p else p)
                         (profiles s)
            | None \<Rightarrow> profiles s @ [new_profile s (u_id dbu) now db_now d])"
    and "\<exists>x. get_user_by_tg_id (fst (create_or_update_profile s False now db_now (Some u) d)) (t_id u)
               = Some x \<and> u_id x = u_id dbu"
proof -
  let ?s1 = "upsert_user_basic s (t_id u) (t_username u) (t_first_name u) (t_last_name u)"
  let ?x = "dbu\<lparr>username := t_username u, first_name := t_first_name u, last_name := t_last_name u\<rparr>"
  have g: "get_user_by_tg_id ?s1 (t_id u) = Some ?x"
    using assms by (rule upsert_user_existing)
  have us: "users (fst (create_or_update_profile s False now db_now (Some u) d)) = users ?s1"
    by (simp add: create_or_update_profile_def Let_def g split: option.splits)
  show "profiles (fst (create_or_update_profile s False now db_now (Some u) d)) =
           (case first_row (user_profiles s (u_id dbu)) of
              Some e \<Rightarrow> map (\<lambda>p. if p_id p = p_id e then apply_payload (u_id dbu) d p else p)
                         (profiles s)
            | None \<Rightarrow> profiles s @ [new_profile s (u_id dbu) now db_now d])"
    by (simp add: create_or_update_profile_def Let_def g user_profiles_def new_profile_def
        split: option.splits)
  have "get_user_by_tg_id (fst (create_or_update_profile s False now db_now (Some u) d)) (t_id u)
          = get_user_by_tg_id ?s1 (t_id u)"
    using us by (simp add: get_user_by_tg_id_def)
  then show "\<exists>x. get_user_by_tg_id (fst (create_or_update_profile s False now db_now (Some u) d)) (t_id u)
               = Some x \<and> u_id x = u_id dbu"
    using g by simp
qed

lemma run_update:
  assumes "get_user_by_tg_id s (t_id u) = Some dbu"
    and "distinct (map p_id (profiles s))"
    and "user_profiles s (u_id dbu) = [e]"
  shows "profiles (fst (create_or_update_profile s False now db_now (Some u) d)) =
           map (\<lambda>p. if p = e then apply_payload (u_id dbu) d e else p) (profiles s)"
    and "user_profiles (fst (create_or_update_profile s False now db_now (Some u) d)) (u_id dbu) =
           [apply_payload (u_id dbu) d e]"
    and "map p_id (profiles (fst (create_or_update_profile s False now db_now (Some u) d))) =
           map p_id (profiles s)"
proof -
  let ?r = "fst (create_or_update_profile s False now db_now (Some u) d)"
  let ?g = "\<lambda>p. if p_id p = p_id e then apply_payload (u_id dbu) d p else p"
  have "e \<in> set (user_profiles s (u_id dbu))"
    using assms(3) by simp
  then have e: "e \<in> set (profiles s)" "user_id e = u_id dbu"
    by (simp_all add: user_profiles_def)
  have same: "\<And>p. p \<in> set (profiles s) \<Longrightarrow> p_id p = p_id e \<Longrightarrow> p = e"
    using assms(2) e(1) by (meson distinct_map inj_onD)
  have pr: "profiles ?r = map ?g (profiles s)"
    using run_profiles(1) [OF assms(1)] assms(3) by simp
  show 1: "profiles ?r = map (\<lambda>p. if p = e then apply_payload (u_id dbu) d e else p) (profiles s)"
    unfolding pr using same by (intro map_cong) auto
  have "filter (\<lambda>p. user_id p = u_id dbu) (map ?g (profiles s)) =
          map ?g (filter (\<lambda>p. user_id p = u_id dbu) (profiles s))"
    using same e(2) by (intro filter_map_stable_on) (auto simp: apply_payload_def)
  then show "user_profiles ?r (u_id dbu) = [apply_payload (u_id dbu) d e]"
    using assms(3) by (simp add: user_profiles_def pr)
  show "map p_id (profiles ?r) = map p_id (profiles s)"
    unfolding pr by (simp add: apply_payload_def comp_def if_distrib cong: if_cong)
qed

lemma run_insert:
  assumes "get_user_by_tg_id s (t_id u) = Some dbu"
    and "user_profiles s (u_id dbu) = []"
  shows "profiles (fst (create_or_update_profile s False now db_now (Some u) d)) =
           profiles s @ [new_profile s (u_id dbu) now db_now d]"
    and "user_profiles (fst (create_or_update_profile s False now db_now (Some u) d)) (u_id dbu) =
           [new_profile s (u_id dbu) now db_now d]"
proof -
  show 1: "profiles (fst (create_or_update_profile s False now db_now (Some u) d)) =
           profiles s @ [new_profile s (u_id dbu) now db_now d]"
    using run_profiles(1) [OF assms(1)] assms(2) by simp
  show "user_profiles (fst (create_or_update_profile s False now db_now (Some u) d)) (u_id dbu) =
           [new_profile s (u_id dbu) now db_now d]"
    using assms(2) by (simp add: user_profiles_def 1) (simp add: new_profile_def)
qed

lemma reg_inv_iff:
  "reg_inv s tg uid \<longleftrightarrow>
     (\<exists>x. get_user_by_tg_id s tg = Some x \<and> u_id x = uid) \<and>
     distinct (map p_id (profiles s)) \<and> length (user_profiles s uid) \<le> 1"
  by (auto simp: reg_inv_def split: option.splits)

lemma run_inv:
  assumes "reg_inv s (t_id u) uid"
  shows "reg_inv (fst (create_or_update_profile s False now db_now (Some u) d)) (t_id u) uid
       \<and> length (user_profiles (fst (create_or_update_profile s False now db_now (Some u) d)) uid) = 1"
proof -
  from assms obtain dbu where dbu: "get_user_by_tg_id s (t_id u) = Some dbu" "u_id dbu = uid"
    by (auto simp: reg_inv_iff)
  have d: "distinct (map p_id (profiles s))" and l: "length (user_profiles s uid) \<le> 1"
    using assms by (auto simp: reg_inv_iff)
  let ?r = "fst (create_or_update_profile s False now db_now (Some u) d)"
  have usr: "\<exists>x. get_user_by_tg_id ?r (t_id u) = Some x \<and> u_id x = uid"
    using run_profiles(2) [OF dbu(1)] dbu(2) by simp
  show ?thesis
  proof (cases "user_profiles s uid")
    case Nil
    then have n: "user_profiles s (u_id dbu) = []" using dbu(2) by simp
    have "distinct (map p_id (profiles ?r))"
      using d next_id_fresh [of "map p_id (profiles s)"]
      by (simp add: run_insert(1) [OF dbu(1) n] new_profile_def)
    then show ?thesis
      using usr run_insert(2) [OF dbu(1) n] dbu(2) by (simp add: reg_inv_iff)
  next
    case (Cons e es)
    with l have "user_profiles s (u_id dbu) = [e]" using dbu(2) by simp
    note u = run_update [OF dbu(1) d this]
    show ?thesis using usr u(2,3) d dbu(2) by (simp add: reg_inv_iff)
  qed
qed

lemma runs_inv:
  assumes "reg_inv s (t_id u) uid" and "runs \<noteq> []"
  shows "length (user_profiles (registration_runs s u runs) uid) = 1"
  using assms
proof (induction runs arbitrary: s)
  case Nil
  then show ?case by simp
next
  case (Cons r rest)
  obtain now db_now d where r: "r = (now, db_now, d)" by (cases r) auto
  let ?s' = "fst (create_or_update_profile s False now db_now (Some u) d)"
  have i: "reg_inv ?s' (t_id u) uid" and o: "length (user_profiles ?s' uid) = 1"
    using run_inv [OF Cons.prems(1)] by simp_all
  show ?case
  proof (cases rest)
    case Nil
    then show ?thesis using o r by simp
  next
    case (Cons a list)
    then show ?thesis using Cons.IH [OF i] r by simp
  qed
qed

text \<open>
  C5. For a user who has a row in \<^verbatim>\<open>Users\<close> (the dialogue writes it on entry), in a store
  whose profile identifiers are a key and which holds at most one profile of the user, a
  persisted run of \<^verbatim>\<open>_create_or_update_profile\<close> is an upsert: an existing profile row is
  rewritten in place, with its identifier, its boost window and its creation time kept
  and every other row untouched; without one, a single row is appended whose boost window
  ends 24 hours after the handler's clock. After one or more such runs the user has
  exactly one profile row.
\<close>

theorem C5_profile_upsert:
  assumes "get_user_by_tg_id s (t_id u) = Some dbu"
    and "distinct (map p_id (profiles s))"
    and "length (user_profiles s (u_id dbu)) \<le> 1"
  shows "(\<forall>e. user_profiles s (u_id dbu) = [e] \<longrightarrow>
            profiles (fst (create_or_update_profile s False now db_now (Some u) d)) =
              map (\<lambda>p. if p = e then apply_payload (u_id dbu) d e else p) (profiles s)
            \<and> p_id (apply_payload (u_id dbu) d e) = p_id e
            \<and> boosted_until (apply_payload (u_id dbu) d e) = boosted_until e
            \<and> p_created_at (apply_payload (u_id dbu) d e) = p_created_at e)
       \<and> (user_profiles s (u_id dbu) = [] \<longrightarrow>
            profiles (fst (create_or_update_profile s False now db_now (Some u) d)) =
              profiles s @
              [\<lparr>p_id = next_id (map p_id (profiles s)), user_id = u_id dbu, name = d_name d,
                gender = Some (d_gender d), age = d_age d, city = Some (d_city d),
                photos = d_photos d, bio = Some (d_bio d), p_is_active = True,
                boosted_until = Some (now + 24 * hour_us), p_created_at = db_now\<rparr>])
       \<and> (runs \<noteq> [] \<longrightarrow>
            length (user_profiles (registration_runs s u runs) (u_id dbu)) = 1)"
proof -
  have inv: "reg_inv s (t_id u) (u_id dbu)"
    using assms by (simp add: reg_inv_iff)
  have upd: "\<forall>e. user_profiles s (u_id dbu) = [e] \<longrightarrow>
            profiles (fst (create_or_update_profile s False now db_now (Some u) d)) =
              map (\<lambda>p. if p = e then apply_payload (u_id dbu) d e else p) (profiles s)
            \<and> p_id (apply_payload (u_id dbu) d e) = p_id e
            \<and> boosted_until (apply_payload (u_id dbu) d e) = boosted_until e
            \<and> p_created_at (apply_payload (u_id dbu) d e) = p_created_at e"
    using run_update(1) [OF assms(1,2)] by (simp add: apply_payload_def)
  have ins: "user_profiles s (u_id dbu) = [] \<longrightarrow>
            profiles (fst (create_or_update_profile s False now db_now (Some u) d)) =
              profiles s @
              [\<lparr>p_id = next_id (map p_id (profiles s)), user_id = u_id dbu, name = d_name d,
                gender = Some (d_gender d), age = d_age d, city = Some (d_city d),
                photos = d_photos d, bio = Some (d_bio d), p_is_active = True,
                boosted_until = Some (now + 24 * hour_us), p_created_at = db_now\<rparr>]"
    using run_insert(1) [OF assms(1)] by (simp add: new_profile_def)
  show ?thesis
    using upd ins runs_inv [OF inv] by blast
qed

theorem C5_profile_upsert_witness:
  "get_user_by_tg_id pair_store (t_id ann) = Some (mk_user 1 101)
   \<and> user_profiles pair_store 1 = [mk_profile 1 1 ''Ann'' ''female'' ''Paris'' None 10]
   \<and> profiles (fst (create_or_update_profile pair_store False 5000 5001 (Some ann) ann_data)) =
       [\<lparr>p_id = 1, user_id = 1, name = ''Anna'', gender = Some ''female'', age = 30,
         city = Some ''Lyon'', photos = [''https://img/1.jpg''], bio = Some ''hello'',
         p_is_active = True, boosted_until = None, p_created_at = 10\<rparr>,
        mk_profile 2 2 ''Bob'' ''male'' ''Paris'' None 20]
   \<and> length (user_profiles
               (registration_runs pair_store ann [(5000, 5001, ann_data), (6000, 6001, ann_data)])
               1) = 1
   \<and> user_profiles triangle_store 1 = []
   \<and> profiles (fst (create_or_update_profile triangle_store False 5000 5001 (Some ann) ann_data)) =
       [\<lparr>p_id = 1, user_id = 1, name = ''Anna'', gender = Some ''female'', age = 30,
         city = Some ''Lyon'', photos = [''https://img/1.jpg''], bio = Some ''hello'',
         p_is_active = True, boosted_until = Some 86400005000, p_created_at = 5001\<rparr>]"
proof -
  have g: "get_user_by_tg_id pair_store (t_id ann) = Some (mk_user 1 101)"
    by code_simp
  have dst: "distinct (map p_id (profiles pair_store))"
    by code_simp
  have uid: "u_id (mk_user 1 101) = 1"
    by (simp add: mk_user_def)
  have up: "user_profiles pair_store 1 = [mk_profile 1 1 ''Ann'' ''female'' ''Paris'' None 10]"
    by code_simp
  have len: "length (user_profiles pair_store (u_id (mk_user 1 101))) \<le> 1"
    by (simp add: uid up)
  note a = C5_profile_upsert [OF g dst len, unfolded uid,
      of 5000 5001 ann_data "[(5000, 5001, ann_data), (6000, 6001, ann_data)]"]
  have w1: "profiles (fst (create_or_update_profile pair_store False 5000 5001 (Some ann) ann_data)) =
       [\<lparr>p_id = 1, user_id = 1, name = ''Anna'', gender = Some ''female'', age = 30,
         city = Some ''Lyon'', photos = [''https://img/1.jpg''], bio = Some ''hello'',
         p_is_active = True, boosted_until = None, p_created_at = 10\<rparr>,
        mk_profile 2 2 ''Bob'' ''male'' ''Paris'' None 20]"
    using a up by (simp add: pair_store_def mk_profile_def apply_payload_def ann_data_def)
  have w2: "length (user_profiles
               (registration_runs pair_store ann [(5000, 5001, ann_data), (6000, 6001, ann_data)])
               1) = 1"
    using a by simp
  have g': "get_user_by_tg_id triangle_store (t_id ann) = Some (mk_user 1 101)"
    by code_simp
  have dst': "distinct (map p_id (profiles triangle_store))"
    by code_simp
  have up': "user_profiles triangle_store 1 = []"
    by code_simp
  have len': "length (user_profiles triangle_store (u_id (mk_user 1 101))) \<le> 1"
    by (simp add: uid up')
  note b = C5_profile_upsert [OF g' dst' len', unfolded uid, of 5000 5001 ann_data "[]"]
  have w3: "profiles (fst (create_or_update_profile triangle_store False 5000 5001 (Some ann) ann_data)) =
       [\<lparr>p_id = 1, user_id = 1, name = ''Anna'', gender = Some ''female'', age = 30,
         city = Some ''Lyon'', photos = [''https://img/1.jpg''], bio = Some ''hello'',
         p_is_active = True, boosted_until = Some 86400005000, p_created_at = 5001\<rparr>]"
    using b up' by (simp add: triangle_store_def ann_data_def next_id_def hour_us_def)
  show ?thesis using g up w1 w2 up' w3 by blast
qed

end
